theory Spec2Isabelle
  imports Complex_Main "HOL-Library.List_Lexorder" "HOL-Library.Char_ord" "HOL-Library.Log_Nat"
begin

section \<open>JavaScript values used by SalesForecast.jsx\<close>

text \<open>
  Strings are lists of code units below 256. Numbers are IEEE doubles; what the
  program can tell apart is whether a number is NaN, an infinity or finite, so a finite
  number carries the exact value it denotes. The overflow to an infinity is kept. The
  rounding of a finite value to the nearest double is written out for the time index
  of a prediction row (\<open>toDouble\<close> below) and left out elsewhere: the parsed
  quantities, the month indices and product codes of the training rows are kept as the
  exact quotients.
\<close>

datatype jsnum = NaN | PosInfinity | NegInfinity | Fin rat

definition isNaN_number :: "jsnum \<Rightarrow> bool" where
  "isNaN_number n \<longleftrightarrow> n = NaN"

definition isFinite_number :: "jsnum \<Rightarrow> bool" where
  "isFinite_number n = (case n of Fin v \<Rightarrow> True | _ \<Rightarrow> False)"

text \<open>The white space and line terminators of ECMAScript that lie below 256.\<close>

definition isWhiteSpace :: "char \<Rightarrow> bool" where
  "isWhiteSpace c \<longleftrightarrow>
     c \<in> set [CHR 0x09, CHR 0x0A, CHR 0x0B, CHR 0x0C, CHR 0x0D, CHR 0x20, CHR 0xA0]"

definition trimStart :: "string \<Rightarrow> string" where
  "trimStart s = dropWhile isWhiteSpace s"

definition trim :: "string \<Rightarrow> string" where
  "trim s = rev (trimStart (rev (trimStart s)))"

text \<open>\<^verbatim>\<open>s.split(sep)\<close> for a separator of one character: never the empty list.\<close>

fun split :: "char \<Rightarrow> string \<Rightarrow> string list" where
  "split sep [] = [[]]"
| "split sep (c # cs) =
     (if c = sep then [] # split sep cs
      else (case split sep cs of [] \<Rightarrow> [[c]] | w # ws \<Rightarrow> (c # w) # ws))"

definition isDigit :: "char \<Rightarrow> bool" where
  "isDigit c \<longleftrightarrow> c \<in> set ''0123456789''"

definition digitVal :: "char \<Rightarrow> int" where
  "digitVal c = of_char c - 48"

definition digitsVal :: "string \<Rightarrow> int" where
  "digitsVal ds = foldl (\<lambda>n c. 10 * n + digitVal c) 0 ds"

definition startsWith :: "string \<Rightarrow> string \<Rightarrow> bool" where
  "startsWith s p \<longleftrightarrow> take (length p) s = p"

text \<open>
  A finite decimal value becomes a Number: from \<open>2^1024 - 2^970\<close> on, round-to-nearest
  gives an infinity.
\<close>

definition toNumber :: "rat \<Rightarrow> jsnum" where
  "toNumber v =
     (if 2 ^ 1024 - 2 ^ 970 \<le> v then PosInfinity
      else if v \<le> - (2 ^ 1024 - 2 ^ 970) then NegInfinity
      else Fin v)"

definition scanSign :: "string \<Rightarrow> bool \<times> string" where
  "scanSign s =
     (case s of
        [] \<Rightarrow> (False, s)
      | c # r \<Rightarrow> if c = CHR ''-'' then (True, r) else if c = CHR ''+'' then (False, r)
                 else (False, s))"

text \<open>The optional ExponentPart at the head of a string: its value and what follows it.\<close>

definition scanExponent :: "string \<Rightarrow> int \<times> string" where
  "scanExponent s =
     (case s of
        [] \<Rightarrow> (0, s)
      | c # r \<Rightarrow>
          if c = CHR ''e'' \<or> c = CHR ''E'' then
            (let (eneg, d) = scanSign r; ds = takeWhile isDigit d in
             if ds = [] then (0, s)
             else ((if eneg then - digitsVal ds else digitsVal ds),
                   dropWhile isDigit d))
          else (0, s))"

definition scale10 :: "rat \<Rightarrow> int \<Rightarrow> rat" where
  "scale10 m e = (if 0 \<le> e then m * 10 ^ nat e else m / 10 ^ nat (- e))"

text \<open>
  The longest prefix of a string that is a StrDecimalLiteral of ECMAScript
  (sign, then \<open>Infinity\<close> or digits with an optional fraction and exponent), its
  value, and the rest of the string; None when no prefix is one.
\<close>

definition scanDecimal :: "string \<Rightarrow> (jsnum \<times> string) option" where
  "scanDecimal s =
     (let (neg, u) = scanSign s in
      if startsWith u ''Infinity'' then
        Some (if neg then NegInfinity else PosInfinity, drop 8 u)
      else
        (let ip = takeWhile isDigit u;
             r1 = dropWhile isDigit u;
             hasDot = (case r1 of [] \<Rightarrow> False | c # _ \<Rightarrow> c = CHR ''.'');
             fp = (if hasDot then takeWhile isDigit (tl r1) else []);
             r2 = (if hasDot then dropWhile isDigit (tl r1) else r1)
         in if ip = [] \<and> fp = [] then None
            else
              (let (e, r3) = scanExponent r2;
                   m = of_int (digitsVal ip) + of_int (digitsVal fp) / 10 ^ length fp;
                   v = scale10 m e
               in Some (toNumber (if neg then - v else v), r3))))"

text \<open>\<^verbatim>\<open>parseFloat(s)\<close> on a string.\<close>

definition parseFloat :: "string \<Rightarrow> jsnum" where
  "parseFloat s = (case scanDecimal (trimStart s) of None \<Rightarrow> NaN | Some (v, _) \<Rightarrow> v)"

definition isNonDecimalIntegerLiteral :: "string \<Rightarrow> bool" where
  "isNonDecimalIntegerLiteral t =
     (case t of
        z # x # ds \<Rightarrow>
          z = CHR ''0'' \<and> ds \<noteq> [] \<and>
          ((x \<in> set ''xX'' \<and> list_all (\<lambda>c. c \<in> set ''0123456789abcdefABCDEF'') ds) \<or>
           (x \<in> set ''oO'' \<and> list_all (\<lambda>c. c \<in> set ''01234567'') ds) \<or>
           (x \<in> set ''bB'' \<and> list_all (\<lambda>c. c \<in> set ''01'') ds))
      | _ \<Rightarrow> False)"

text \<open>
  \<^verbatim>\<open>isNaN(s)\<close> on a string: the string is converted with StringToNumber, which
  trims it, reads the empty string as 0, and otherwise wants the whole of it to be a
  numeric literal.
\<close>

definition isNaN_string :: "string \<Rightarrow> bool" where
  "isNaN_string s =
     (let t = trim s in
      t \<noteq> [] \<and>
      \<not> (case scanDecimal t of None \<Rightarrow> False | Some (_, r) \<Rightarrow> r = []) \<and>
      \<not> isNonDecimalIntegerLiteral t)"

section \<open>targetFileUpload: reading the CSV text\<close>

text \<open>Observations and predictions are the same kind of object in the source.\<close>

record sale =
  date :: string
  product :: string
  quantity :: jsnum

datatype error = Error string | RangeError string

fun message :: "error \<Rightarrow> string" where
  "message (Error m) = m"
| "message (RangeError m) = m"

text \<open>The regular expression \<^verbatim>\<open>/^\d{4}-\d{2}$/\<close>.\<close>

definition matchDate :: "string \<Rightarrow> bool" where
  "matchDate s =
     (case s of
        [a, b, c, d, h, m, n] \<Rightarrow>
          isDigit a \<and> isDigit b \<and> isDigit c \<and> isDigit d \<and> h = CHR ''-'' \<and> isDigit m \<and> isDigit n
      | _ \<Rightarrow> False)"

text \<open>\<^verbatim>\<open>item.trim().replace(/"/g, '')\<close>\<close>

definition cleanItem :: "string \<Rightarrow> string" where
  "cleanItem item = filter (\<lambda>c. c \<noteq> CHR 0x22) (trim item)"

definition lineItems :: "string \<Rightarrow> string list" where
  "lineItems line = map cleanItem (split CHR '','' line)"

text \<open>
  The checks of the loop body on the destructured items, in the source's order; the
  result is the object pushed, or None where the body runs \<^verbatim>\<open>continue\<close>. With fewer
  than three items \<^verbatim>\<open>quantity\<close> is undefined and \<^verbatim>\<open>parseFloat(undefined)\<close> is NaN,
  so such a line is left out whatever its date.
\<close>

fun checkItems :: "string list \<Rightarrow> sale option" where
  "checkItems (dateItem # productItem # quantityItem # _) =
     (if \<not> matchDate dateItem then None
      else
        (let numQuantity = parseFloat quantityItem in
         if isNaN_number numQuantity then None
         else if \<not> isNaN_string productItem then None
         else Some \<lparr>date = dateItem @ ''-01'', product = productItem,
                     quantity = numQuantity\<rparr>))"
| "checkItems _ = None"

text \<open>The \<^verbatim>\<open>for (let line of dataLines)\<close> loop, with \<^verbatim>\<open>parsedData\<close> as accumulator.\<close>

fun parseLines :: "string list \<Rightarrow> sale list \<Rightarrow> sale list" where
  "parseLines [] parsedData = parsedData"
| "parseLines (line # dataLines) parsedData =
     (if trim line = [] then parseLines dataLines parsedData
      else
        (case checkItems (lineItems line) of
           None \<Rightarrow> parseLines dataLines parsedData
         | Some row \<Rightarrow> parseLines dataLines (parsedData @ [row])))"

definition dataLines :: "string \<Rightarrow> string list" where
  "dataLines text = drop 1 (split CHR 0x0A text)"

text \<open>The body of the \<^verbatim>\<open>try\<close> block of \<^verbatim>\<open>reader.onload\<close>.\<close>

definition parseText :: "string \<Rightarrow> error + sale list" where
  "parseText text =
     (let parsedData = parseLines (dataLines text) [] in
      if length parsedData = 0 then Inl (Error ''No valid data could be parsed from the file'')
      else Inr parsedData)"

section \<open>dataProcessing: the encoding table and the training rows\<close>

text \<open>\<^verbatim>\<open>[...new Set(xs)]\<close>: the distinct elements, each at its first occurrence.\<close>

definition setAdd :: "'a list \<Rightarrow> 'a \<Rightarrow> 'a list" where
  "setAdd s x = (if x \<in> set s then s else s @ [x])"

definition newSet :: "'a list \<Rightarrow> 'a list" where
  "newSet xs = foldl setAdd [] xs"

fun indexOf :: "'a list \<Rightarrow> 'a \<Rightarrow> int" where
  "indexOf [] x = - 1"
| "indexOf (y # ys) x =
     (if y = x then 0 else (let i = indexOf ys x in if i < 0 then - 1 else i + 1))"

text \<open>
  \<^verbatim>\<open>encoder\<close> is an ordinary object \<^verbatim>\<open>{}\<close> used as a dictionary: its own
  properties are a map. Assigning a number to the key \<^verbatim>\<open>__proto__\<close> runs the setter
  inherited from \<^verbatim>\<open>Object.prototype\<close>, which ignores a value that is neither an
  object nor null and creates no property; reading that key then gives the prototype
  object. A lookup is None where the value read is not a number.
\<close>

type_synonym object = "string \<rightharpoonup> rat"

definition setProp :: "object \<Rightarrow> string \<Rightarrow> rat \<Rightarrow> object" where
  "setProp obj k v = (if k = ''__proto__'' then obj else obj(k \<mapsto> v))"

text \<open>\<^verbatim>\<open>products.forEach((p, i) => encoder[p] = i / products.length)\<close>\<close>

fun forEachProduct :: "string list \<Rightarrow> nat \<Rightarrow> nat \<Rightarrow> object \<Rightarrow> object" where
  "forEachProduct [] i n obj = obj"
| "forEachProduct (p # ps) i n obj =
     forEachProduct ps (i + 1) n (setProp obj p (of_nat i / of_nat n))"

definition divNumber :: "jsnum \<Rightarrow> rat \<Rightarrow> jsnum" where
  "divNumber x c = (case x of Fin v \<Rightarrow> Fin (v / c) | _ \<Rightarrow> x)"

text \<open>
  The object returned by dataProcessing. The tensors are kept as the rows they are
  built from; a row is the month index and the value read from the encoder.
\<close>

record processed =
  inputs :: "(rat \<times> rat option) list"
  outputs :: "jsnum list"
  encoder :: object
  dates :: "string list"
  products :: "string list"

definition productsOf :: "sale list \<Rightarrow> string list" where
  "productsOf sd = newSet (map product sd)"

definition datesOf :: "sale list \<Rightarrow> string list" where
  "datesOf sd = sort (newSet (map date sd))"

definition encoderOf :: "string list \<Rightarrow> object" where
  "encoderOf ps = forEachProduct ps 0 (length ps) Map.empty"

definition inputRow :: "string list \<Rightarrow> object \<Rightarrow> sale \<Rightarrow> rat \<times> rat option" where
  "inputRow ds enc d = (of_int (indexOf ds (date d)) / of_nat (length ds), enc (product d))"

text \<open>
  The body of the \<^verbatim>\<open>try\<close> block; on the error the \<^verbatim>\<open>catch\<close> clause writes the
  message to the status and returns null.
\<close>

definition dataProcessing :: "sale list \<Rightarrow> error + processed" where
  "dataProcessing sd =
     (if length sd = 0 then Inl (Error ''No data available for processing'')
      else Inr \<lparr>inputs = map (inputRow (datesOf sd) (encoderOf (productsOf sd))) sd,
                outputs = map (\<lambda>d. divNumber (quantity d) 1000) sd,
                encoder = encoderOf (productsOf sd),
                dates = datesOf sd,
                products = productsOf sd\<rparr>)"

section \<open>Date\<close>

text \<open>
  A time value is a number of milliseconds since 1970-01-01T00:00Z, or None for the NaN
  of an invalid Date. The host's time zone is a parameter \<open>tza\<close>, its offset from UTC
  in milliseconds (a zone without daylight saving).
\<close>

definition msPerDay :: int where
  "msPerDay = 86400000"

definition Day :: "int \<Rightarrow> int" where
  "Day t = t div msPerDay"

definition TimeWithinDay :: "int \<Rightarrow> int" where
  "TimeWithinDay t = t mod msPerDay"

text \<open>The day number of a date of the proleptic Gregorian calendar (month 1 to 12).\<close>

definition daysFromCivil :: "int \<Rightarrow> int \<Rightarrow> int \<Rightarrow> int" where
  "daysFromCivil y m d =
     (let y' = (if m \<le> 2 then y - 1 else y);
          era = y' div 400;
          yoe = y' - era * 400;
          mp = (m + 9) mod 12;
          doy = (153 * mp + 2) div 5 + d - 1;
          doe = yoe * 365 + yoe div 4 - yoe div 100 + doy
      in era * 146097 + doe - 719468)"

text \<open>The year, month (1 to 12) and day of the month of a day number.\<close>

definition civilFromDays :: "int \<Rightarrow> int \<times> int \<times> int" where
  "civilFromDays z =
     (let z' = z + 719468;
          era = z' div 146097;
          doe = z' - era * 146097;
          yoe = (doe - doe div 1460 + doe div 36524 - doe div 146096) div 365;
          doy = doe - (365 * yoe + yoe div 4 - yoe div 100);
          mp = (5 * doy + 2) div 153;
          d = doy - (153 * mp + 2) div 5 + 1;
          m = (if mp < 10 then mp + 3 else mp - 9)
      in (yoe + era * 400 + (if m \<le> 2 then 1 else 0), m, d))"

definition YearFromTime :: "int \<Rightarrow> int" where
  "YearFromTime t = fst (civilFromDays (Day t))"

definition MonthFromTime :: "int \<Rightarrow> int" where
  "MonthFromTime t = fst (snd (civilFromDays (Day t))) - 1"

definition DateFromTime :: "int \<Rightarrow> int" where
  "DateFromTime t = snd (snd (civilFromDays (Day t)))"

text \<open>MakeDay takes a month counted from 0 that may lie outside 0 to 11.\<close>

definition MakeDay :: "int \<Rightarrow> int \<Rightarrow> int \<Rightarrow> int" where
  "MakeDay year month dt = daysFromCivil (year + month div 12) (month mod 12 + 1) 1 + dt - 1"

definition MakeDate :: "int \<Rightarrow> int \<Rightarrow> int" where
  "MakeDate day time = day * msPerDay + time"

definition LocalTime :: "int \<Rightarrow> int \<Rightarrow> int" where
  "LocalTime tza t = t + tza"

definition UTC :: "int \<Rightarrow> int \<Rightarrow> int" where
  "UTC tza t = t - tza"

definition TimeClip :: "int \<Rightarrow> int option" where
  "TimeClip t = (if \<bar>t\<bar> \<le> 8640000000000000 then Some t else None)"

text \<open>
  \<^verbatim>\<open>new Date(s)\<close> on the strings this program builds, \<^verbatim>\<open>YYYY-MM-01\<close>: a date-only
  form is read as UTC midnight, and a month outside 01 to 12 gives an invalid Date.
\<close>

definition newDate :: "string \<Rightarrow> int option" where
  "newDate s =
     (case s of
        [y1, y2, y3, y4, h1, m1, m2, h2, d1, d2] \<Rightarrow>
          if list_all isDigit [y1, y2, y3, y4, m1, m2] \<and> h1 = CHR ''-'' \<and> h2 = CHR ''-''
             \<and> d1 = CHR ''0'' \<and> d2 = CHR ''1''
             \<and> 1 \<le> digitsVal [m1, m2] \<and> digitsVal [m1, m2] \<le> 12
          then TimeClip (MakeDate
                 (MakeDay (digitsVal [y1, y2, y3, y4]) (digitsVal [m1, m2] - 1) 1) 0)
          else None
      | _ \<Rightarrow> None)"

text \<open>getMonth and setMonth work in local time.\<close>

definition getMonth :: "int \<Rightarrow> int option \<Rightarrow> int option" where
  "getMonth tza t = map_option (\<lambda>tv. MonthFromTime (LocalTime tza tv)) t"

definition setMonth :: "int \<Rightarrow> int option \<Rightarrow> int option \<Rightarrow> int option" where
  "setMonth tza t month =
     (case (t, month) of
        (Some tv, Some m) \<Rightarrow>
          (let lt = LocalTime tza tv
           in TimeClip (UTC tza
                (MakeDate (MakeDay (YearFromTime lt) m (DateFromTime lt)) (TimeWithinDay lt))))
      | _ \<Rightarrow> None)"

text \<open>The last \<open>w\<close> decimal digits of a number, with leading zeros.\<close>

fun padDigits :: "nat \<Rightarrow> int \<Rightarrow> string" where
  "padDigits 0 n = []"
| "padDigits (Suc w) n = padDigits w (n div 10) @ [char_of (48 + n mod 10)]"

definition isoYear :: "int \<Rightarrow> string" where
  "isoYear y =
     (if 0 \<le> y \<and> y \<le> 9999 then padDigits 4 y
      else (if y < 0 then ''-'' else ''+'') @ padDigits 6 \<bar>y\<bar>)"

text \<open>toISOString works in UTC and throws a RangeError on an invalid Date.\<close>

definition toISOString :: "int option \<Rightarrow> error + string" where
  "toISOString t =
     (case t of
        None \<Rightarrow> Inl (RangeError ''Invalid time value'')
      | Some tv \<Rightarrow>
          (let ms = TimeWithinDay tv
           in Inr (isoYear (YearFromTime tv) @ ''-'' @ padDigits 2 (MonthFromTime tv + 1)
                   @ ''-'' @ padDigits 2 (DateFromTime tv)
                   @ ''T'' @ padDigits 2 (ms div 3600000) @ '':'' @ padDigits 2 (ms div 60000 mod 60)
                   @ '':'' @ padDigits 2 (ms div 1000 mod 60) @ ''.'' @ padDigits 3 (ms mod 1000)
                   @ ''Z'')))"

section \<open>predictSales\<close>

text \<open>
  The trained network is a function from the row handed to \<^verbatim>\<open>predict\<close> to the
  number read back with \<^verbatim>\<open>dataSync()[0]\<close>, which may be NaN or an infinity.
\<close>

type_synonym model = "rat \<times> rat option \<Rightarrow> jsnum"

definition timesNumber :: "jsnum \<Rightarrow> rat \<Rightarrow> jsnum" where
  "timesNumber x c = (case x of Fin v \<Rightarrow> Fin (v * c) | _ \<Rightarrow> x)"

text \<open>Math.round: the nearest integer, a tie going up; NaN and the infinities unchanged.\<close>

definition Math_round :: "jsnum \<Rightarrow> jsnum" where
  "Math_round x = (case x of Fin v \<Rightarrow> Fin (of_int \<lfloor>v + 1 / 2\<rfloor>) | _ \<Rightarrow> x)"

text \<open>Math.max of two numbers: NaN as soon as one of them is NaN.\<close>

definition Math_max :: "jsnum \<Rightarrow> jsnum \<Rightarrow> jsnum" where
  "Math_max a b =
     (if a = NaN \<or> b = NaN then NaN
      else if a = PosInfinity \<or> b = PosInfinity then PosInfinity
      else (case (a, b) of
              (Fin x, Fin y) \<Rightarrow> Fin (max x y)
            | (NegInfinity, _) \<Rightarrow> b
            | (_, _) \<Rightarrow> a))"

text \<open>
  Rounding to a binary floating-point format with \<open>p\<close> significant bits (53 for a
  double, 24 for the float32 of a tensor): to the nearest value of the format, a tie
  going to the even significand. The exponent range is left out: the values rounded
  below lie between \<open>2^-32\<close> and 1, where both formats are normal.
\<close>

definition roundHalfEven :: "rat \<Rightarrow> int" where
  "roundHalfEven y =
     (let f = \<lfloor>y\<rfloor>; r = y - of_int f
      in if r < 1 / 2 then f else if 1 / 2 < r then f + 1 else if even f then f else f + 1)"

text \<open>For \<open>x > 0\<close>, the exponent \<open>e\<close> with \<open>2^e \<le> x < 2^(e+1)\<close>.\<close>

definition exponentOf :: "rat \<Rightarrow> int" where
  "exponentOf x =
     (let k = bitlen (fst (quotient_of x)) - bitlen (snd (quotient_of x))
      in if 2 powi k \<le> x then k else k - 1)"

definition roundTo :: "int \<Rightarrow> rat \<Rightarrow> rat" where
  "roundTo p x =
     (if x = 0 then 0
      else (let u = 2 powi (exponentOf \<bar>x\<bar> - (p - 1))
            in sgn x * of_int (roundHalfEven (\<bar>x\<bar> / u)) * u))"

definition toDouble :: "rat \<Rightarrow> rat" where
  "toDouble x = roundTo 53 x"

definition toFloat32 :: "rat \<Rightarrow> rat" where
  "toFloat32 x = roundTo 24 x"

text \<open>
  The row of \<^verbatim>\<open>tf.tensor2d([[(dates.length + i) / (dates.length + 6), encoder[product]]])\<close>.
  The two sums are integers below \<open>2^53\<close> and exact; their quotient is a double. The
  tensor then holds the float32 nearest to each entry of the row.
\<close>

definition predictInput :: "processed \<Rightarrow> string \<Rightarrow> int \<Rightarrow> rat \<times> rat option" where
  "predictInput pr p i =
     (toDouble (of_int (int (length (dates pr)) + i) / of_int (int (length (dates pr)) + 6)),
      encoder pr p)"

definition predictedQuantity :: "model \<Rightarrow> processed \<Rightarrow> string \<Rightarrow> int \<Rightarrow> jsnum" where
  "predictedQuantity trainedModel pr p i =
     Math_max (Fin 0) (Math_round (timesNumber (trainedModel (predictInput pr p i)) 1000))"

text \<open>
  \<^verbatim>\<open>nextDate = new Date(lastDate); nextDate.setMonth(lastDate.getMonth() + i);
  nextDate.toISOString()\<close>
\<close>

definition nextDateISO :: "int \<Rightarrow> int option \<Rightarrow> int \<Rightarrow> error + string" where
  "nextDateISO tza lastDate i =
     toISOString (setMonth tza lastDate (map_option (\<lambda>m. m + i) (getMonth tza lastDate)))"

text \<open>The loop \<^verbatim>\<open>for (let i = 1; i <= 6; i++)\<close> for one product, from \<open>i\<close> on.\<close>

function forOffsets ::
  "int \<Rightarrow> model \<Rightarrow> processed \<Rightarrow> int option \<Rightarrow> string \<Rightarrow> int \<Rightarrow> sale list \<Rightarrow> error + sale list"
where
  "forOffsets tza trainedModel pr lastDate p i acc =
     (if i \<le> 6 then
        (case nextDateISO tza lastDate i of
           Inl e \<Rightarrow> Inl e
         | Inr isoString \<Rightarrow>
             forOffsets tza trainedModel pr lastDate p (i + 1)
               (acc @ [\<lparr>date = take 7 isoString, product = p,
                        quantity = predictedQuantity trainedModel pr p i\<rparr>]))
      else Inr acc)"
  by pat_completeness auto
termination
  by (relation "measure (\<lambda>(tza, trainedModel, pr, lastDate, p, i, acc). nat (7 - i))") auto

declare forOffsets.simps [simp del]

text \<open>\<^verbatim>\<open>products.forEach(product => ...)\<close>; an exception ends it.\<close>

fun forEachPredict ::
  "int \<Rightarrow> model \<Rightarrow> processed \<Rightarrow> int option \<Rightarrow> string list \<Rightarrow> sale list \<Rightarrow> error + sale list"
where
  "forEachPredict tza trainedModel pr lastDate [] acc = Inr acc"
| "forEachPredict tza trainedModel pr lastDate (p # ps) acc =
     (case forOffsets tza trainedModel pr lastDate p 1 acc of
        Inl e \<Rightarrow> Inl e
      | Inr acc' \<Rightarrow> forEachPredict tza trainedModel pr lastDate ps acc')"

text \<open>\<^verbatim>\<open>new Date(dates[dates.length - 1])\<close>; of undefined it is an invalid Date.\<close>

definition lastDateOf :: "string list \<Rightarrow> int option" where
  "lastDateOf ds = (if ds = [] then None else newDate (last ds))"

text \<open>
  predictSales: Inl is the exception that leaves it, Inr None a return before
  \<^verbatim>\<open>setPredictions\<close>, Inr (Some ps) the list given to \<^verbatim>\<open>setPredictions\<close>.
\<close>

definition predictSales :: "int \<Rightarrow> model option \<Rightarrow> sale list \<Rightarrow> error + sale list option" where
  "predictSales tza trainedModel sd =
     (case trainedModel of
        None \<Rightarrow> Inr None
      | Some m \<Rightarrow>
          (case dataProcessing sd of
             Inl e \<Rightarrow> Inr None
           | Inr pr \<Rightarrow>
               (case forEachPredict tza m pr (lastDateOf (dates pr)) (products pr) [] of
                  Inl e \<Rightarrow> Inl e
                | Inr ps \<Rightarrow> Inr (Some ps))))"

section \<open>The component's state and its handlers\<close>

record state =
  salesData :: "sale list"
  predictions :: "sale list"
  model :: "model option"
  status :: string
  isModelTrained :: bool

text \<open>The initial values given to \<^verbatim>\<open>useState\<close>.\<close>

definition initialState :: state where
  "initialState =
     \<lparr>salesData = [], predictions = [], model = None, status = [], isModelTrained = False\<rparr>"

text \<open>
  \<^verbatim>\<open>reader.onload\<close> stores the parsed rows and a fixed message, or the message of
  the error thrown.
\<close>

definition targetFileUpload :: "string \<Rightarrow> state \<Rightarrow> state" where
  "targetFileUpload text st =
     (case parseText text of
        Inl e \<Rightarrow> st\<lparr>status := ''Error parsing file: '' @ message e\<rparr>
      | Inr parsedData \<Rightarrow>
          st\<lparr>salesData := parsedData,
             status := ''Data loaded successfully! You can now train the model.''\<rparr>)"

text \<open>
  trainModel, with the fitting of the network as a parameter \<open>fit\<close> (it may throw).
  Both calls of dataProcessing, the one here and the one in predictSales, read the
  \<^verbatim>\<open>salesData\<close> of the render whose closure is running.
\<close>

definition trainModel :: "int \<Rightarrow> (processed \<Rightarrow> error + model) \<Rightarrow> state \<Rightarrow> state" where
  "trainModel tza fit st =
     (case dataProcessing (salesData st) of
        Inl e \<Rightarrow> st\<lparr>status := ''Error processing data: '' @ message e\<rparr>
      | Inr pr \<Rightarrow>
          (case fit pr of
             Inl e \<Rightarrow> st\<lparr>status := message e\<rparr>
           | Inr m \<Rightarrow>
               (case predictSales tza (Some m) (salesData st) of
                  Inl e \<Rightarrow> st\<lparr>model := Some m, isModelTrained := True, status := message e\<rparr>
                | Inr None \<Rightarrow>
                    st\<lparr>model := Some m, isModelTrained := True,
                       status := ''Training model completed! Predictions of sales generated.''\<rparr>
                | Inr (Some ps) \<Rightarrow>
                    st\<lparr>predictions := ps, model := Some m, isModelTrained := True,
                       status := ''Training model completed! Predictions of sales generated.''\<rparr>)))"

section \<open>The rows the description calls well-formed\<close>

text \<open>
  A row is well-formed when its date matches YYYY-MM, its quantity parses as a number
  and its product is not numeric, all three read from the items of the line.
\<close>

definition wellFormedRow :: "string \<Rightarrow> bool" where
  "wellFormedRow line =
     (case lineItems line of
        d # p # q # _ \<Rightarrow> matchDate d \<and> parseFloat q \<noteq> NaN \<and> isNaN_string p
      | _ \<Rightarrow> False)"

text \<open>The observation of a well-formed row: the date with \<open>-01\<close> appended.\<close>

definition rowObservation :: "string \<Rightarrow> sale" where
  "rowObservation line =
     \<lparr>date = lineItems line ! 0 @ ''-01'', product = lineItems line ! 1,
      quantity = parseFloat (lineItems line ! 2)\<rparr>"

text \<open>A file with malformed rows before, between and after two well-formed ones.\<close>

definition csvMixed :: string where
  "csvMixed =
     ''date,product,quantity'' @ [CHR 0x0A] @
     ''not a row'' @ [CHR 0x0A] @
     ''2024-01,Widget,100'' @ [CHR 0x0D, CHR 0x0A] @
     ''2024-02,42,10'' @ [CHR 0x0A] @
     [CHR 0x0A] @
     '' 2024-02 , Gadget , 7.5e1 ,x'' @ [CHR 0x0A] @
     ''24-02,Gadget,7'' @ [CHR 0x0A]"

text \<open>A file whose only rows are malformed, and files with one row.\<close>

definition csvMalformed :: string where
  "csvMalformed =
     ''date,product,quantity'' @ [CHR 0x0A] @
     ''2024-1,Widget,10'' @ [CHR 0x0A] @
     ''2024-02,42,10'' @ [CHR 0x0A]"

definition csvInfinity :: string where
  "csvInfinity = ''date,product,quantity'' @ [CHR 0x0A] @ ''2024-01,Widget,Infinity''"

definition csvQuote :: string where
  "csvQuote =
     ''date,product,quantity'' @ [CHR 0x0A] @ ''2024-01,Wid'' @ [CHR 0x22] @ ''get,5''"

definition csvWidget :: string where
  "csvWidget = ''date,product,quantity'' @ [CHR 0x0A] @ ''2024-12,Widget,100''"

definition csvProto :: string where
  "csvProto = ''date,product,quantity'' @ [CHR 0x0A] @ ''2024-01,__proto__,5''"

text \<open>What the description asks of a predicted quantity.\<close>

definition isNonNegativeInteger :: "jsnum \<Rightarrow> bool" where
  "isNonNegativeInteger x = (case x of Fin v \<Rightarrow> 0 \<le> v \<and> of_int \<lfloor>v\<rfloor> = v | _ \<Rightarrow> False)"

text \<open>Two networks to run the loop with: one that has diverged, one that has not.\<close>

definition nanModel :: model where
  "nanModel x = NaN"

definition slopeModel :: model where
  "slopeModel x = Fin (fst x - 3 / 4)"

text \<open>
  The observations of the rows \<^verbatim>\<open>2024-01,Widget,100\<close>, \<^verbatim>\<open>2024-02,Widget,120\<close>
  and \<^verbatim>\<open>2024-01,Gadget,50\<close>, and a state that holds them.
\<close>

definition salesE2E :: "sale list" where
  "salesE2E =
     [\<lparr>date = ''2024-01-01'', product = ''Widget'', quantity = Fin 100\<rparr>,
      \<lparr>date = ''2024-02-01'', product = ''Widget'', quantity = Fin 120\<rparr>,
      \<lparr>date = ''2024-01-01'', product = ''Gadget'', quantity = Fin 50\<rparr>]"

definition stateE2E :: state where
  "stateE2E = initialState\<lparr>salesData := salesE2E\<rparr>"

definition fitSlope :: "processed \<Rightarrow> error + model" where
  "fitSlope pr = Inr slopeModel"

text \<open>Two products observed in the same single month.\<close>

definition salesTwo :: "sale list" where
  "salesTwo =
     [\<lparr>date = ''2024-12-01'', product = ''Widget'', quantity = Fin 100\<rparr>,
      \<lparr>date = ''2024-12-01'', product = ''Gadget'', quantity = Fin 50\<rparr>]"

text \<open>A file whose first line has the form of a data row, alone and followed by rows.\<close>

definition csvRowFirst :: string where
  "csvRowFirst =
     ''2024-01,First,1'' @ [CHR 0x0A] @
     ''2024-02,Widget,100'' @ [CHR 0x0A] @
     ''2024-02,42,10''"

text \<open>What slopeModel predicts from the three observations, in UTC.\<close>

definition predictionsE2E :: "sale list" where
  "predictionsE2E =
     [\<lparr>date = ''2024-03'', product = ''Widget'', quantity = Fin 0\<rparr>,
      \<lparr>date = ''2024-04'', product = ''Widget'', quantity = Fin 0\<rparr>,
      \<lparr>date = ''2024-05'', product = ''Widget'', quantity = Fin 0\<rparr>,
      \<lparr>date = ''2024-06'', product = ''Widget'', quantity = Fin 0\<rparr>,
      \<lparr>date = ''2024-07'', product = ''Widget'', quantity = Fin 125\<rparr>,
      \<lparr>date = ''2024-08'', product = ''Widget'', quantity = Fin 250\<rparr>,
      \<lparr>date = ''2024-03'', product = ''Gadget'', quantity = Fin 0\<rparr>,
      \<lparr>date = ''2024-04'', product = ''Gadget'', quantity = Fin 0\<rparr>,
      \<lparr>date = ''2024-05'', product = ''Gadget'', quantity = Fin 0\<rparr>,
      \<lparr>date = ''2024-06'', product = ''Gadget'', quantity = Fin 0\<rparr>,
      \<lparr>date = ''2024-07'', product = ''Gadget'', quantity = Fin 125\<rparr>,
      \<lparr>date = ''2024-08'', product = ''Gadget'', quantity = Fin 250\<rparr>]"

section \<open>Properties of the parser\<close>

lemma split_no_sep: "sep \<notin> set s \<Longrightarrow> split sep s = [s]"
  by (induction s) auto

lemma trim_empty_all_ws:
  assumes "trim s = []"
  shows "\<forall>c \<in> set s. isWhiteSpace c"
proof -
  from assms have "dropWhile isWhiteSpace (rev (dropWhile isWhiteSpace s)) = []"
    by (simp add: trim_def trimStart_def)
  then have "\<forall>c \<in> set (dropWhile isWhiteSpace s). isWhiteSpace c"
    by (simp add: dropWhile_eq_Nil_conv)
  moreover have "dropWhile isWhiteSpace s \<noteq> [] \<Longrightarrow> \<not> isWhiteSpace (hd (dropWhile isWhiteSpace s))"
    by (rule hd_dropWhile)
  ultimately have "dropWhile isWhiteSpace s = []"
    by (cases "dropWhile isWhiteSpace s") auto
  then show ?thesis
    by (simp add: dropWhile_eq_Nil_conv)
qed

lemma blank_line_items: "trim line = [] \<Longrightarrow> lineItems line = [cleanItem line]"
proof -
  assume "trim line = []"
  then have "\<forall>c \<in> set line. isWhiteSpace c" by (rule trim_empty_all_ws)
  moreover have "\<not> isWhiteSpace CHR '',''" by (simp add: isWhiteSpace_def)
  ultimately have "CHR '','' \<notin> set line" by blast
  then show ?thesis by (simp add: lineItems_def split_no_sep)
qed

lemma blank_not_wellFormed: "trim line = [] \<Longrightarrow> \<not> wellFormedRow line"
  by (simp add: wellFormedRow_def blank_line_items)

lemma checkItems_wellFormed:
  "checkItems (lineItems line) = (if wellFormedRow line then Some (rowObservation line) else None)"
  by (cases "lineItems line" rule: checkItems.cases)
     (simp_all add: wellFormedRow_def rowObservation_def isNaN_number_def Let_def)

lemma parseLines_filter:
  "parseLines ls acc = acc @ map rowObservation (filter wellFormedRow ls)"
proof (induction ls arbitrary: acc)
  case Nil
  then show ?case by simp
next
  case (Cons l ls)
  then show ?case
    by (simp add: checkItems_wellFormed blank_not_wellFormed)
qed

lemma parseText_filter:
  "parseText text =
     (if filter wellFormedRow (dataLines text) = []
      then Inl (Error ''No valid data could be parsed from the file'')
      else Inr (map rowObservation (filter wellFormedRow (dataLines text))))"
  by (simp add: parseText_def parseLines_filter Let_def)

lemmas number_defs = parseFloat_def scanDecimal_def scanSign_def startsWith_def isDigit_def
  scanExponent_def scale10_def toNumber_def digitsVal_def digitVal_def trimStart_def
  isWhiteSpace_def isNaN_string_def isNonDecimalIntegerLiteral_def trim_def

lemmas row_defs = wellFormedRow_def rowObservation_def lineItems_def cleanItem_def
  matchDate_def dataLines_def

lemma csvMixed_rows:
  "map rowObservation (filter wellFormedRow (dataLines csvMixed)) =
     [\<lparr>date = ''2024-01-01'', product = ''Widget'', quantity = Fin 100\<rparr>,
      \<lparr>date = ''2024-02-01'', product = ''Gadget'', quantity = Fin 75\<rparr>]"
proof -
  have "dataLines csvMixed =
          [''not a row'', ''2024-01,Widget,100'' @ [CHR 0x0D], ''2024-02,42,10'', [],
           '' 2024-02 , Gadget , 7.5e1 ,x'', ''24-02,Gadget,7'', []]"
    by (simp add: csvMixed_def dataLines_def)
  moreover have "filter wellFormedRow
          [''not a row'', ''2024-01,Widget,100'' @ [CHR 0x0D], ''2024-02,42,10'', [],
           '' 2024-02 , Gadget , 7.5e1 ,x'', ''24-02,Gadget,7'', []] =
          [''2024-01,Widget,100'' @ [CHR 0x0D], '' 2024-02 , Gadget , 7.5e1 ,x'']"
    by (simp add: row_defs number_defs)
  ultimately show ?thesis
    by (simp add: row_defs number_defs)
qed

lemma csvMalformed_rows: "filter wellFormedRow (dataLines csvMalformed) = []"
  by (simp add: csvMalformed_def row_defs number_defs)

lemma csvWidget_rows:
  "map rowObservation (filter wellFormedRow (dataLines csvWidget)) =
     [\<lparr>date = ''2024-12-01'', product = ''Widget'', quantity = Fin 100\<rparr>]"
  by (simp add: csvWidget_def row_defs number_defs)

lemma parseText_csvWidget:
  "parseText csvWidget = Inr [\<lparr>date = ''2024-12-01'', product = ''Widget'', quantity = Fin 100\<rparr>]"
  using csvWidget_rows by (auto simp: parseText_filter)

lemma wellFormedRow_items:
  assumes "wellFormedRow line"
  shows "\<exists>d p q rest. lineItems line = d # p # q # rest \<and> matchDate d \<and>
    parseFloat q \<noteq> NaN \<and> isNaN_string p \<and>
    rowObservation line = \<lparr>date = d @ ''-01'', product = p, quantity = parseFloat q\<rparr>"
  using assms
  by (auto simp: wellFormedRow_def rowObservation_def split: list.splits)

lemma kept_row:
  assumes "parseText text = Inr rows" and "row \<in> set rows"
  shows "\<exists>line d p q rest. line \<in> set (dataLines text) \<and>
    lineItems line = d # p # q # rest \<and> matchDate d \<and> parseFloat q \<noteq> NaN \<and> isNaN_string p \<and>
    row = \<lparr>date = d @ ''-01'', product = p, quantity = parseFloat q\<rparr>"
proof -
  from assms(1) have "rows = map rowObservation (filter wellFormedRow (dataLines text))"
    by (simp add: parseText_filter split: if_splits)
  with assms(2) obtain line where l: "line \<in> set (dataLines text)" "wellFormedRow line"
    "row = rowObservation line"
    by auto
  from wellFormedRow_items [OF l(2)] l(1) l(3) show ?thesis
    by metis
qed

text \<open>
  C4, as the code has it. The check on the quantity is \<^verbatim>\<open>isNaN\<close>: a row whose
  quantity parses as NaN is dropped, and no observation returned has a NaN quantity.
  An infinity is not NaN and is kept.
\<close>

theorem kept_quantity_is_not_NaN:
  "(parseFloat q = NaN \<longrightarrow> checkItems (d # p # q # rest) = None) \<and>
   (parseText text = Inr rows \<longrightarrow> row \<in> set rows \<longrightarrow> quantity row \<noteq> NaN)"
proof (intro conjI impI)
  assume "parseFloat q = NaN"
  then show "checkItems (d # p # q # rest) = None"
    by (simp add: isNaN_number_def)
next
  assume "parseText text = Inr rows" and "row \<in> set rows"
  then obtain q' where "parseFloat q' \<noteq> NaN" "quantity row = parseFloat q'"
    using kept_row by fastforce
  then show "quantity row \<noteq> NaN"
    by simp
qed


lemma isNaN_string_blank: "trim p = [] \<Longrightarrow> \<not> isNaN_string p"
  by (simp add: isNaN_string_def)

lemma cleanItem_no_quote: "CHR 0x22 \<notin> set (cleanItem item)"
  by (simp add: cleanItem_def)

lemma lineItems_no_quote: "item \<in> set (lineItems line) \<Longrightarrow> CHR 0x22 \<notin> set item"
  by (auto simp: lineItems_def cleanItem_no_quote)

lemma matchDate_shape:
  "matchDate s \<Longrightarrow>
     \<exists>a b c d m n. s = [a, b, c, d, CHR ''-'', m, n] \<and> list_all isDigit [a, b, c, d, m, n]"
  by (simp add: matchDate_def split: list.splits)

lemma isDigit_not_quote: "isDigit c \<Longrightarrow> c \<noteq> CHR 0x22"
  by (auto simp: isDigit_def)

lemma matchDate_no_quote:
  assumes "matchDate d"
  shows "CHR 0x22 \<notin> set d"
proof -
  from matchDate_shape [OF assms] obtain a b c e m n
    where "d = [a, b, c, e, CHR ''-'', m, n]" "list_all isDigit [a, b, c, e, m, n]"
    by blast
  then show ?thesis
    using isDigit_not_quote by auto
qed

text \<open>
  C5, as the code has it. Each item of a row is the field between two commas, trimmed
  and then with every double quote deleted, wherever it stands in the field; so no item,
  and no product or date of an observation, contains a double quote.
\<close>

theorem items_lose_every_quote:
  "lineItems line = map (\<lambda>item. filter (\<lambda>c. c \<noteq> CHR 0x22) (trim item)) (split CHR '','' line) \<and>
   (\<forall>item \<in> set (lineItems line). CHR 0x22 \<notin> set item) \<and>
   (parseText text = Inr rows \<longrightarrow> row \<in> set rows \<longrightarrow>
      CHR 0x22 \<notin> set (product row) \<and> CHR 0x22 \<notin> set (date row))"
proof (intro conjI impI ballI)
  show "lineItems line = map (\<lambda>item. filter (\<lambda>c. c \<noteq> CHR 0x22) (trim item)) (split CHR '','' line)"
    by (simp add: lineItems_def cleanItem_def)
next
  fix item assume "item \<in> set (lineItems line)"
  then show "CHR 0x22 \<notin> set item" by (rule lineItems_no_quote)
next
  assume r: "parseText text = Inr rows" "row \<in> set rows"
  from kept_row [OF r] obtain l d p q rest where k: "lineItems l = d # p # q # rest"
    "matchDate d" "row = \<lparr>date = d @ ''-01'', product = p, quantity = parseFloat q\<rparr>"
    by blast
  have "p \<in> set (lineItems l)" using k(1) by simp
  then have "CHR 0x22 \<notin> set p" by (rule lineItems_no_quote)
  with k(3) show "CHR 0x22 \<notin> set (product row)" by simp
next
  assume r: "parseText text = Inr rows" "row \<in> set rows"
  from kept_row [OF r] obtain d p q where k: 
    "matchDate d" "row = \<lparr>date = d @ ''-01'', product = p, quantity = parseFloat q\<rparr>"
    by blast
  from k show "CHR 0x22 \<notin> set (date row)"
    by (simp add: matchDate_no_quote)
qed

text \<open>
  C10. A row whose product item is empty or only white space is dropped, because
  \<^verbatim>\<open>isNaN\<close> reads such a string as the number 0; no observation returned has an
  empty product.
\<close>

theorem empty_product_row_dropped:
  "(trim p = [] \<longrightarrow> \<not> isNaN_string p \<and> checkItems (d # p # q # rest) = None) \<and>
   (lineItems line = d # p # rest \<longrightarrow> trim p = [] \<longrightarrow>
      parseLines (line # ls) acc = parseLines ls acc) \<and>
   (parseText text = Inr rows \<longrightarrow> row \<in> set rows \<longrightarrow>
      product row \<noteq> [] \<and> trim (product row) \<noteq> [])"
proof (intro conjI impI)
  assume "trim p = []"
  then show "\<not> isNaN_string p" by (rule isNaN_string_blank)
next
  assume "trim p = []"
  then show "checkItems (d # p # q # rest) = None"
    by (simp add: isNaN_string_blank Let_def)
next
  assume "lineItems line = d # p # rest" and "trim p = []"
  then have "\<not> wellFormedRow line"
    by (cases rest) (simp_all add: wellFormedRow_def isNaN_string_blank)
  then show "parseLines (line # ls) acc = parseLines ls acc"
    by (simp add: parseLines_filter)
next
  assume r: "parseText text = Inr rows" "row \<in> set rows"
  from kept_row [OF r] obtain d p q where k: "isNaN_string p"
    "row = \<lparr>date = d @ ''-01'', product = p, quantity = parseFloat q\<rparr>"
    by blast
  then have "trim p \<noteq> []"
    using isNaN_string_blank by blast
  with k(2) show "trim (product row) \<noteq> []" by simp
next
  assume r: "parseText text = Inr rows" "row \<in> set rows"
  from kept_row [OF r] obtain d p q where k: "isNaN_string p"
    "row = \<lparr>date = d @ ''-01'', product = p, quantity = parseFloat q\<rparr>"
    by blast
  then have "trim p \<noteq> []"
    using isNaN_string_blank by blast
  moreover have "trim [] = []" by (simp add: trim_def trimStart_def)
  ultimately have "p \<noteq> []" by auto
  with k(2) show "product row \<noteq> []" by simp
qed


lemma parseText_csvMixed:
  "parseText csvMixed =
     Inr [\<lparr>date = ''2024-01-01'', product = ''Widget'', quantity = Fin 100\<rparr>,
          \<lparr>date = ''2024-02-01'', product = ''Gadget'', quantity = Fin 75\<rparr>]"
  using csvMixed_rows by (auto simp: parseText_filter)

text \<open>
  C4 as stated fails: the row \<^verbatim>\<open>2024-01,Widget,Infinity\<close> is kept, with a quantity
  that is not finite.
\<close>

theorem parseText_keeps_Infinity:
  "parseText csvInfinity =
     Inr [\<lparr>date = ''2024-01-01'', product = ''Widget'', quantity = PosInfinity\<rparr>] \<and>
   \<not> isFinite_number PosInfinity"
  by (simp add: parseText_filter csvInfinity_def row_defs number_defs isFinite_number_def)

theorem kept_quantity_is_not_NaN_witness:
  "parseFloat ''abc'' = NaN \<and>
   checkItems [''2024-01'', ''Widget'', ''abc''] = None \<and>
   parseText csvMixed =
     Inr [\<lparr>date = ''2024-01-01'', product = ''Widget'', quantity = Fin 100\<rparr>,
          \<lparr>date = ''2024-02-01'', product = ''Gadget'', quantity = Fin 75\<rparr>] \<and>
   quantity \<lparr>date = ''2024-02-01'', product = ''Gadget'', quantity = Fin 75\<rparr> \<noteq> NaN"
proof -
  have a: "parseFloat ''abc'' = NaN"
    by (simp add: number_defs)
  from kept_quantity_is_not_NaN [of "''abc''" "''2024-01''" "''Widget''" "[]" csvMixed
      "[\<lparr>date = ''2024-01-01'', product = ''Widget'', quantity = Fin 100\<rparr>,
        \<lparr>date = ''2024-02-01'', product = ''Gadget'', quantity = Fin 75\<rparr>]"
      "\<lparr>date = ''2024-02-01'', product = ''Gadget'', quantity = Fin 75\<rparr>"]
    a parseText_csvMixed
  show ?thesis by simp
qed

text \<open>
  C5 as stated fails: a double quote inside the product field is deleted, not preserved.
\<close>

theorem interior_quote_removed:
  "lineItems (''2024-01,Wid'' @ [CHR 0x22] @ ''get,5'') = [''2024-01'', ''Widget'', ''5''] \<and>
   parseText csvQuote =
     Inr [\<lparr>date = ''2024-01-01'', product = ''Widget'', quantity = Fin 5\<rparr>]"
  by (simp add: parseText_filter csvQuote_def row_defs number_defs)

theorem items_lose_every_quote_witness:
  "lineItems (''2024-01, '' @ [CHR 0x22] @ ''Wid'' @ [CHR 0x22] @ ''get'' @ [CHR 0x22] @ '' ,5'')
     = [''2024-01'', ''Widget'', ''5''] \<and>
   parseText csvQuote =
     Inr [\<lparr>date = ''2024-01-01'', product = ''Widget'', quantity = Fin 5\<rparr>] \<and>
   CHR 0x22 \<notin> set (product \<lparr>date = ''2024-01-01'', product = ''Widget'', quantity = Fin 5\<rparr>)"
proof -
  have a: "parseText csvQuote =
     Inr [\<lparr>date = ''2024-01-01'', product = ''Widget'', quantity = Fin 5\<rparr>]"
    by (simp add: parseText_filter csvQuote_def row_defs number_defs)
  have b: "map (\<lambda>item. filter (\<lambda>c. c \<noteq> CHR 0x22) (trim item))
     (split CHR '','' (''2024-01, '' @ [CHR 0x22] @ ''Wid'' @ [CHR 0x22] @ ''get'' @ [CHR 0x22] @ '' ,5''))
     = [''2024-01'', ''Widget'', ''5'']"
    by (simp add: number_defs)
  from items_lose_every_quote
    [of "''2024-01, '' @ [CHR 0x22] @ ''Wid'' @ [CHR 0x22] @ ''get'' @ [CHR 0x22] @ '' ,5''"
      csvQuote "[\<lparr>date = ''2024-01-01'', product = ''Widget'', quantity = Fin 5\<rparr>]"
      "\<lparr>date = ''2024-01-01'', product = ''Widget'', quantity = Fin 5\<rparr>"] a b
  show ?thesis by simp
qed

theorem empty_product_row_dropped_witness:
  "trim '' '' = [] \<and> \<not> isNaN_string '' '' \<and>
   checkItems [''2024-01'', '' '', ''5''] = None \<and>
   lineItems (''2024-01,'' @ [CHR 0x22] @ '' '' @ [CHR 0x22] @ '',5'') = [''2024-01'', '' '', ''5''] \<and>
   parseLines [''2024-01,'' @ [CHR 0x22] @ '' '' @ [CHR 0x22] @ '',5''] [] = [] \<and>
   parseLines [''2024-01,,5''] [] = [] \<and>
   parseText csvMixed =
     Inr [\<lparr>date = ''2024-01-01'', product = ''Widget'', quantity = Fin 100\<rparr>,
          \<lparr>date = ''2024-02-01'', product = ''Gadget'', quantity = Fin 75\<rparr>] \<and>
   product \<lparr>date = ''2024-02-01'', product = ''Gadget'', quantity = Fin 75\<rparr> \<noteq> []"
proof -
  have a: "trim '' '' = []"
    by (simp add: number_defs)
  have b: "lineItems (''2024-01,'' @ [CHR 0x22] @ '' '' @ [CHR 0x22] @ '',5'') = [''2024-01'', '' '', ''5'']"
    by (simp add: row_defs number_defs)
  have c: "lineItems ''2024-01,,5'' = [''2024-01'', [], ''5'']"
    by (simp add: row_defs number_defs)
  have d: "trim [] = []"
    by (simp add: number_defs)
  from empty_product_row_dropped [of "'' ''" "''2024-01''" "''5''" "[''5'']"
      "''2024-01,'' @ [CHR 0x22] @ '' '' @ [CHR 0x22] @ '',5''" "[]" "[]" csvMixed
      "[\<lparr>date = ''2024-01-01'', product = ''Widget'', quantity = Fin 100\<rparr>,
        \<lparr>date = ''2024-02-01'', product = ''Gadget'', quantity = Fin 75\<rparr>]"
      "\<lparr>date = ''2024-02-01'', product = ''Gadget'', quantity = Fin 75\<rparr>"]
    empty_product_row_dropped [of "[]" "''2024-01''" "''5''" "[''5'']" "''2024-01,,5''" "[]" "[]"]
    a b c d parseText_csvMixed
  show ?thesis by simp
qed

section \<open>Properties of the encoding\<close>

lemma setAdd_apply: "setAdd acc x = (if x \<in> set acc then acc else acc @ [x])"
  by (simp add: setAdd_def)

lemma set_foldl_setAdd: "set (foldl setAdd acc xs) = set acc \<union> set xs"
  by (induction xs arbitrary: acc) (auto simp: setAdd_apply)

lemma distinct_foldl_setAdd: "distinct acc \<Longrightarrow> distinct (foldl setAdd acc xs)"
  by (induction xs arbitrary: acc) (auto simp: setAdd_apply)

lemma foldl_setAdd_prefix: "\<exists>ys. foldl setAdd acc xs = acc @ ys"
proof (induction xs arbitrary: acc)
  case Nil
  then show ?case by simp
next
  case (Cons x xs)
  from Cons [of "setAdd acc x"] obtain ys
    where ys: "foldl setAdd (setAdd acc x) xs = setAdd acc x @ ys"
    by blast
  have "\<exists>zs. setAdd acc x = acc @ zs"
    by (simp add: setAdd_apply)
  then obtain zs where "setAdd acc x = acc @ zs"
    by blast
  with ys have "foldl setAdd acc (x # xs) = acc @ (zs @ ys)"
    by simp
  then show ?case
    by blast
qed

lemma set_newSet: "set (newSet xs) = set xs"
  by (simp add: newSet_def set_foldl_setAdd)

lemma distinct_newSet: "distinct (newSet xs)"
  by (simp add: newSet_def distinct_foldl_setAdd)

lemma length_newSet: "length (newSet xs) = card (set xs)"
  using distinct_card [OF distinct_newSet, of xs] by (simp add: set_newSet)

lemma newSet_Cons: "\<exists>ys. newSet (x # xs) = x # ys"
proof -
  have "setAdd [] x = [x]"
    by (simp add: setAdd_apply)
  then have "newSet (x # xs) = foldl setAdd [x] xs"
    by (simp add: newSet_def)
  with foldl_setAdd_prefix [of "[x]" xs] show ?thesis
    by simp
qed

lemma set_productsOf: "set (productsOf sd) = product ` set sd"
  by (simp add: productsOf_def set_newSet)

lemma length_productsOf: "length (productsOf sd) = card (product ` set sd)"
  by (simp add: productsOf_def length_newSet)

lemma distinct_productsOf: "distinct (productsOf sd)"
  by (simp add: productsOf_def distinct_newSet)

lemma set_datesOf: "set (datesOf sd) = date ` set sd"
  by (simp add: datesOf_def set_newSet)

lemma length_datesOf: "length (datesOf sd) = card (date ` set sd)"
  by (simp add: datesOf_def length_newSet)

lemma datesOf_nonempty: "sd \<noteq> [] \<Longrightarrow> datesOf sd \<noteq> []"
  using set_datesOf [of sd] by (cases sd) auto

lemma indexOf_range: "x \<in> set ys \<Longrightarrow> 0 \<le> indexOf ys x \<and> indexOf ys x < int (length ys)"
  by (induction ys) (auto simp: Let_def)

lemma indexOf_nth: "x \<in> set ys \<Longrightarrow> ys ! nat (indexOf ys x) = x"
proof (induction ys)
  case Nil
  then show ?case by simp
next
  case (Cons y ys)
  show ?case
  proof (cases "y = x")
    case True
    then show ?thesis by simp
  next
    case False
    with Cons.prems have m: "x \<in> set ys" by simp
    from indexOf_range [OF m] have "nat (indexOf ys x + 1) = Suc (nat (indexOf ys x))"
      by arith
    with False m Cons.IH show ?thesis
      using indexOf_range [OF m] by (simp add: Let_def)
  qed
qed

lemma forEachProduct_proto: "obj ''__proto__'' = None \<Longrightarrow> forEachProduct ps i n obj ''__proto__'' = None"
  by (induction ps arbitrary: i obj) (simp_all add: setProp_def)

lemma forEachProduct_other: "p \<notin> set ps \<Longrightarrow> forEachProduct ps i n obj p = obj p"
  by (induction ps arbitrary: i obj) (auto simp: setProp_def)

lemma forEachProduct_nth:
  "distinct ps \<Longrightarrow> k < length ps \<Longrightarrow> ps ! k \<noteq> ''__proto__'' \<Longrightarrow>
   forEachProduct ps i n obj (ps ! k) = Some (of_nat (i + k) / of_nat n)"
proof (induction ps arbitrary: i k obj)
  case Nil
  then show ?case by simp
next
  case (Cons p ps)
  show ?case
  proof (cases k)
    case 0
    with Cons.prems show ?thesis
      by (simp add: forEachProduct_other setProp_def)
  next
    case (Suc j)
    with Cons.prems Cons.IH [of j "i + 1" "setProp obj p (of_nat i / of_nat n)"]
    show ?thesis by simp
  qed
qed

lemma encoderOf_proto: "encoderOf ps ''__proto__'' = None"
  by (simp add: encoderOf_def forEachProduct_proto)

lemma encoderOf_nth:
  "distinct ps \<Longrightarrow> k < length ps \<Longrightarrow> ps ! k \<noteq> ''__proto__'' \<Longrightarrow>
   encoderOf ps (ps ! k) = Some (of_nat k / of_nat (length ps))"
  using forEachProduct_nth [of ps k 0 "length ps" Map.empty] by (simp add: encoderOf_def)


lemma dataProcessing_Inr:
  assumes "dataProcessing sd = Inr pr"
  shows "sd \<noteq> []" and "inputs pr = map (inputRow (datesOf sd) (encoderOf (productsOf sd))) sd"
    and "encoder pr = encoderOf (productsOf sd)" and "dates pr = datesOf sd"
    and "products pr = productsOf sd"
  using assms by (auto simp: dataProcessing_def split: if_splits)

lemma month_index_range:
  assumes "dataProcessing sd = Inr pr" and "k < length sd"
  shows "0 \<le> fst (inputs pr ! k) \<and>
         fst (inputs pr ! k) \<le> (of_nat (card (date ` set sd)) - 1) / of_nat (card (date ` set sd))"
proof -
  let ?ds = "datesOf sd"
  let ?i = "indexOf ?ds (date (sd ! k))"
  from assms(2) have "date (sd ! k) \<in> set ?ds"
    by (simp add: set_datesOf)
  then have "0 \<le> ?i \<and> ?i < int (length ?ds)"
    by (rule indexOf_range)
  then have r: "0 \<le> ?i" "?i < int (length ?ds)"
    by simp_all
  have f: "fst (inputs pr ! k) = of_int ?i / of_nat (length ?ds)"
    using assms by (simp add: dataProcessing_Inr(2) inputRow_def)
  from r have a: "(0::rat) \<le> of_int ?i / of_nat (length ?ds)"
    by simp
  from r have "?i \<le> int (length ?ds) - 1"
    by simp
  then have "(of_int ?i :: rat) \<le> of_int (int (length ?ds) - 1)"
    by (simp only: of_int_le_iff)
  then have "(of_int ?i :: rat) \<le> of_nat (length ?ds) - 1"
    by simp
  then have "(of_int ?i :: rat) / of_nat (length ?ds) \<le> (of_nat (length ?ds) - 1) / of_nat (length ?ds)"
    by (rule divide_right_mono) simp
  with a f show ?thesis
    by (simp add: length_datesOf)
qed

lemma product_code_value:
  assumes "dataProcessing sd = Inr pr" and "k < length sd"
    and "product (sd ! k) \<noteq> ''__proto__''"
  shows "\<exists>j < card (product ` set sd).
           snd (inputs pr ! k) = Some (of_nat j / of_nat (card (product ` set sd)))"
proof -
  let ?ps = "productsOf sd"
  from assms(2) have "product (sd ! k) \<in> set ?ps"
    by (simp add: set_productsOf)
  then obtain j where j: "j < length ?ps" "?ps ! j = product (sd ! k)"
    by (auto simp: in_set_conv_nth)
  have "?ps ! j \<noteq> ''__proto__''"
    using assms(3) j(2) by simp
  with distinct_productsOf j(1)
  have "encoderOf ?ps (?ps ! j) = Some (of_nat j / of_nat (length ?ps))"
    by (rule encoderOf_nth)
  then have "encoderOf ?ps (product (sd ! k)) = Some (of_nat j / of_nat (length ?ps))"
    using j(2) by simp
  moreover have "snd (inputs pr ! k) = encoderOf ?ps (product (sd ! k))"
    using assms by (simp add: dataProcessing_Inr(2) inputRow_def)
  ultimately show ?thesis
    using j(1) by (auto simp: length_productsOf)
qed

lemma product_code_range:
  assumes "dataProcessing sd = Inr pr" and "k < length sd"
    and "product (sd ! k) \<noteq> ''__proto__''"
  shows "\<exists>c. snd (inputs pr ! k) = Some c \<and> 0 \<le> c \<and>
           c \<le> (of_nat (card (product ` set sd)) - 1) / of_nat (card (product ` set sd)) \<and> c < 1"
proof -
  let ?n = "card (product ` set sd)"
  from product_code_value [OF assms] obtain j
    where j: "j < ?n" "snd (inputs pr ! k) = Some (of_nat j / of_nat ?n)"
    by blast
  from j(1) have "(of_nat j :: rat) \<le> of_nat ?n - 1"
    by (metis Suc_leI of_nat_Suc of_nat_le_iff le_diff_eq add.commute)
  then have "(of_nat j :: rat) / of_nat ?n \<le> (of_nat ?n - 1) / of_nat ?n"
    by (rule divide_right_mono) simp
  moreover have "(0::rat) \<le> of_nat j / of_nat ?n"
    by simp
  moreover from j(1) have "(of_nat j :: rat) / of_nat ?n < 1"
    by simp
  ultimately show ?thesis
    using j(2) by blast
qed

lemma product_code_proto:
  assumes "dataProcessing sd = Inr pr" and "k < length sd"
    and "product (sd ! k) = ''__proto__''"
  shows "snd (inputs pr ! k) = None"
  using assms by (simp add: dataProcessing_Inr(2) inputRow_def encoderOf_proto)

lemma first_product_code:
  assumes "dataProcessing sd = Inr pr" and "product (sd ! 0) \<noteq> ''__proto__''"
  shows "snd (inputs pr ! 0) = Some 0"
proof -
  from assms(1) have ne: "sd \<noteq> []"
    by (rule dataProcessing_Inr)
  then obtain d ds where sd: "sd = d # ds"
    by (cases sd) auto
  from newSet_Cons [of "product d" "map product ds"] obtain ys
    where ps: "productsOf sd = product d # ys"
    by (auto simp: productsOf_def sd)
  have z: "productsOf sd ! 0 = product (sd ! 0)"
    using ps sd by simp
  have "0 < length (productsOf sd)"
    using ps by simp
  moreover have "productsOf sd ! 0 \<noteq> ''__proto__''"
    using assms(2) z by simp
  ultimately
  have "encoderOf (productsOf sd) (productsOf sd ! 0) = Some (of_nat 0 / of_nat (length (productsOf sd)))"
    using distinct_productsOf by (intro encoderOf_nth)
  then have "encoderOf (productsOf sd) (product (sd ! 0)) = Some 0"
    using z by simp
  moreover have "0 < length sd"
    using ne by simp
  ultimately show ?thesis
    using assms(1) by (simp add: dataProcessing_Inr(2) inputRow_def)
qed

section \<open>Properties of the prediction loop\<close>

lemma forOffsets_Inr:
  "forOffsets tza m pr ld p i acc = Inr ps \<Longrightarrow>
   ps = acc @ map (\<lambda>j. \<lparr>date = take 7 (projr (nextDateISO tza ld j)), product = p,
                         quantity = predictedQuantity m pr p j\<rparr>) [i..6]"
proof (induction tza m pr ld p i acc rule: forOffsets.induct)
  case (1 tza m pr ld p i acc)
  show ?case
  proof (cases "i \<le> 6")
    case False
    with "1.prems" show ?thesis
      by (simp add: forOffsets.simps)
  next
    case True
    show ?thesis
    proof (cases "nextDateISO tza ld i")
      case (Inl e)
      with True "1.prems" show ?thesis
        by (simp add: forOffsets.simps)
    next
      case (Inr s)
      let ?row = "\<lparr>date = take 7 s, product = p, quantity = predictedQuantity m pr p i\<rparr>"
      from True Inr "1.prems" have "forOffsets tza m pr ld p (i + 1) (acc @ [?row]) = Inr ps"
        by (simp add: forOffsets.simps [of tza m pr ld p i])
      with "1.IH" [OF True Inr] have "ps = (acc @ [?row]) @
          map (\<lambda>j. \<lparr>date = take 7 (projr (nextDateISO tza ld j)), product = p,
                     quantity = predictedQuantity m pr p j\<rparr>) [i + 1..6]"
        by simp
      moreover from True have "[i..6] = i # [i + 1..6]"
        by (simp add: upto_rec1)
      ultimately show ?thesis
        using Inr by simp
    qed
  qed
qed

lemma forEachPredict_Inr:
  "forEachPredict tza m pr ld ps acc = Inr out \<Longrightarrow>
   out = acc @ concat (map (\<lambda>p. map (\<lambda>j. \<lparr>date = take 7 (projr (nextDateISO tza ld j)),
                                           product = p,
                                           quantity = predictedQuantity m pr p j\<rparr>) [1..6]) ps)"
proof (induction ps arbitrary: acc)
  case Nil
  then show ?case by simp
next
  case (Cons p ps)
  from Cons.prems obtain acc' where a: "forOffsets tza m pr ld p 1 acc = Inr acc'"
    and b: "forEachPredict tza m pr ld ps acc' = Inr out"
    by (auto split: sum.splits)
  from forOffsets_Inr [OF a] Cons.IH [OF b] show ?case
    by simp
qed

lemma predictSales_Some:
  assumes "predictSales tza (Some m) sd = Inr (Some out)"
  shows "\<exists>pr. dataProcessing sd = Inr pr \<and>
     out = concat (map (\<lambda>p. map (\<lambda>j. \<lparr>date = take 7 (projr (nextDateISO tza (lastDateOf (dates pr)) j)),
                                         product = p,
                                         quantity = predictedQuantity m pr p j\<rparr>) [1..6])
                       (products pr))"
proof -
  from assms obtain pr where pr: "dataProcessing sd = Inr pr"
    and f: "forEachPredict tza m pr (lastDateOf (dates pr)) (products pr) [] = Inr out"
    by (auto simp: predictSales_def split: sum.splits)
  from forEachPredict_Inr [OF f] pr show ?thesis
    by simp
qed

lemma upto_1_6: "[1..6] = [1, 2, 3, 4, 5, 6::int]"
  by (simp add: upto_rec1)

lemma predictSales_length:
  assumes "predictSales tza (Some m) sd = Inr (Some out)"
  shows "length out = 6 * card (product ` set sd)"
proof -
  from predictSales_Some [OF assms] obtain pr where pr: "dataProcessing sd = Inr pr"
    and out: "out = concat (map (\<lambda>p. map (\<lambda>j. \<lparr>date = take 7 (projr (nextDateISO tza (lastDateOf (dates pr)) j)),
                                         product = p,
                                         quantity = predictedQuantity m pr p j\<rparr>) [1..6])
                       (products pr))"
    by blast
  have "length out = 6 * length (products pr)"
    unfolding out by (induction "products pr") (simp_all add: upto_1_6 length_concat o_def sum_list_triv)
  then show ?thesis
    using pr by (simp add: dataProcessing_Inr(5) length_productsOf)
qed

lemma predictSales_row:
  assumes "predictSales tza (Some m) sd = Inr (Some out)" and "row \<in> set out"
  shows "\<exists>pr p j. dataProcessing sd = Inr pr \<and> p \<in> set (products pr) \<and> 1 \<le> j \<and> j \<le> 6 \<and>
           product row = p \<and> quantity row = predictedQuantity m pr p j"
proof -
  from predictSales_Some [OF assms(1)] obtain pr where pr: "dataProcessing sd = Inr pr"
    and out: "out = concat (map (\<lambda>p. map (\<lambda>j. \<lparr>date = take 7 (projr (nextDateISO tza (lastDateOf (dates pr)) j)),
                                         product = p,
                                         quantity = predictedQuantity m pr p j\<rparr>) [1..6])
                       (products pr))"
    by blast
  from assms(2) obtain p j where "p \<in> set (products pr)" "j \<in> set [1..6]"
    "row = \<lparr>date = take 7 (projr (nextDateISO tza (lastDateOf (dates pr)) j)), product = p,
            quantity = predictedQuantity m pr p j\<rparr>"
    unfolding out by auto
  with pr show ?thesis
    by auto
qed

lemma predictedQuantity_cases:
  "predictedQuantity m pr p i =
     (case m (predictInput pr p i) of
        Fin v \<Rightarrow> Fin (of_int (max 0 \<lfloor>v * 1000 + 1 / 2\<rfloor>))
      | NegInfinity \<Rightarrow> Fin 0
      | PosInfinity \<Rightarrow> PosInfinity
      | NaN \<Rightarrow> NaN)"
  by (cases "m (predictInput pr p i)")
     (simp_all add: predictedQuantity_def timesNumber_def Math_round_def Math_max_def max_def)

lemma predictedQuantity_integer:
  assumes "m (predictInput pr p i) \<noteq> NaN" and "m (predictInput pr p i) \<noteq> PosInfinity"
  shows "isNonNegativeInteger (predictedQuantity m pr p i)"
  using assms
  by (cases "m (predictInput pr p i)")
     (simp_all add: predictedQuantity_cases isNonNegativeInteger_def)

lemma dataProcessing_nonempty: "sd \<noteq> [] \<Longrightarrow> \<exists>pr. dataProcessing sd = Inr pr"
  by (simp add: dataProcessing_def)

text \<open>
  C9. predictSales computes its table again with dataProcessing from the same
  \<^verbatim>\<open>salesData\<close>, and so runs its loop with exactly the table \<open>pr\<close> that
  trainModel obtained before fitting: same encoder, dates and products. The product code
  of a prediction row is the one of the training rows of that product.
\<close>

theorem prediction_uses_training_table:
  assumes "dataProcessing (salesData st) = Inr pr" and "fit pr = Inr m"
  shows "predictSales tza (Some m) (salesData st) =
           map_sum id Some (forEachPredict tza m pr (lastDateOf (dates pr)) (products pr) []) \<and>
         trainModel tza fit st =
           (case forEachPredict tza m pr (lastDateOf (dates pr)) (products pr) [] of
              Inl e \<Rightarrow> st\<lparr>model := Some m, isModelTrained := True, status := message e\<rparr>
            | Inr ps \<Rightarrow>
                st\<lparr>predictions := ps, model := Some m, isModelTrained := True,
                   status := ''Training model completed! Predictions of sales generated.''\<rparr>) \<and>
         (\<forall>pr'. dataProcessing (salesData st) = Inr pr' \<longrightarrow>
            encoder pr' = encoder pr \<and> dates pr' = dates pr \<and> products pr' = products pr) \<and>
         (\<forall>k < length (salesData st). \<forall>i.
            snd (predictInput pr (product (salesData st ! k)) i) = snd (inputs pr ! k))"
proof (intro conjI allI impI)
  show p: "predictSales tza (Some m) (salesData st) =
           map_sum id Some (forEachPredict tza m pr (lastDateOf (dates pr)) (products pr) [])"
    using assms(1) by (simp add: predictSales_def split: sum.splits)
  show "trainModel tza fit st =
           (case forEachPredict tza m pr (lastDateOf (dates pr)) (products pr) [] of
              Inl e \<Rightarrow> st\<lparr>model := Some m, isModelTrained := True, status := message e\<rparr>
            | Inr ps \<Rightarrow>
                st\<lparr>predictions := ps, model := Some m, isModelTrained := True,
                   status := ''Training model completed! Predictions of sales generated.''\<rparr>)"
    using assms by (simp add: trainModel_def p split: sum.splits)
next
  fix pr' assume "dataProcessing (salesData st) = Inr pr'"
  with assms(1) have "pr' = pr" by simp
  then show "encoder pr' = encoder pr" "dates pr' = dates pr" "products pr' = products pr"
    by simp_all
next
  fix k i assume "k < length (salesData st)"
  with assms(1) show "snd (predictInput pr (product (salesData st ! k)) i) = snd (inputs pr ! k)"
    by (simp add: predictInput_def dataProcessing_Inr(2,3) inputRow_def)
qed

theorem prediction_uses_training_table_witness:
  "\<exists>pr. dataProcessing (salesData stateE2E) = Inr pr \<and> fitSlope pr = Inr slopeModel \<and>
     predictSales 0 (Some slopeModel) (salesData stateE2E) =
       map_sum id Some (forEachPredict 0 slopeModel pr (lastDateOf (dates pr)) (products pr) []) \<and>
     snd (predictInput pr ''Gadget'' 1) = snd (inputs pr ! 2)"
proof -
  have s: "salesData stateE2E = salesE2E"
    by (simp add: stateE2E_def initialState_def)
  have "salesE2E \<noteq> []"
    by (simp add: salesE2E_def)
  then obtain pr where pr: "dataProcessing (salesData stateE2E) = Inr pr"
    using dataProcessing_nonempty s by metis
  have f: "fitSlope pr = Inr slopeModel"
    by (simp add: fitSlope_def)
  have k: "2 < length (salesData stateE2E)" "product (salesData stateE2E ! 2) = ''Gadget''"
    by (simp_all add: s salesE2E_def)
  from prediction_uses_training_table [of stateE2E pr fitSlope slopeModel 0, OF pr f] k have
    "predictSales 0 (Some slopeModel) (salesData stateE2E) =
       map_sum id Some (forEachPredict 0 slopeModel pr (lastDateOf (dates pr)) (products pr) [])"
    "snd (predictInput pr ''Gadget'' 1) = snd (inputs pr ! 2)"
    by metis+
  with pr f show ?thesis
    by blast
qed

text \<open>
  C1 does not hold of the code. \<^verbatim>\<open>new Date('2024-12-01')\<close> is UTC midnight, getMonth
  and setMonth work in local time, and toISOString goes back to UTC. In a zone five hours
  west of UTC the last month 2024-12 gives the months below: 2024-12 itself, 2025-03
  and 2025-05 twice, never 2025-02, 2025-04 or 2025-06.
\<close>

theorem predictSales_months_west_of_UTC:
  "parseText csvWidget =
     Inr [\<lparr>date = ''2024-12-01'', product = ''Widget'', quantity = Fin 100\<rparr>] \<and>
   map_sum id (map_option (map date))
     (predictSales (- 18000000) (Some m)
        [\<lparr>date = ''2024-12-01'', product = ''Widget'', quantity = Fin 100\<rparr>]) =
     Inr (Some [''2024-12'', ''2025-01'', ''2025-03'', ''2025-03'', ''2025-05'', ''2025-05''])"
proof
  show "parseText csvWidget =
     Inr [\<lparr>date = ''2024-12-01'', product = ''Widget'', quantity = Fin 100\<rparr>]"
    by (rule parseText_csvWidget)
  show "map_sum id (map_option (map date))
     (predictSales (- 18000000) (Some m)
        [\<lparr>date = ''2024-12-01'', product = ''Widget'', quantity = Fin 100\<rparr>]) =
     Inr (Some [''2024-12'', ''2025-01'', ''2025-03'', ''2025-03'', ''2025-05'', ''2025-05''])"
    by code_simp
qed

text \<open>
  In UTC and east of it (without daylight saving) the same input gives 2025-01 to
  2025-06; the three observations of the end-to-end scenario give twelve predictions.
\<close>

lemma predictSales_months_UTC:
  "map_sum id (map_option (map date))
     (predictSales 0 (Some m)
        [\<lparr>date = ''2024-12-01'', product = ''Widget'', quantity = Fin 100\<rparr>]) =
     Inr (Some [''2025-01'', ''2025-02'', ''2025-03'', ''2025-04'', ''2025-05'', ''2025-06''])"
  by code_simp

lemma predictSales_months_east_of_UTC:
  "map_sum id (map_option (map date))
     (predictSales 28800000 (Some m)
        [\<lparr>date = ''2024-12-01'', product = ''Widget'', quantity = Fin 100\<rparr>]) =
     Inr (Some [''2025-01'', ''2025-02'', ''2025-03'', ''2025-04'', ''2025-05'', ''2025-06''])"
  by code_simp

lemma predictSales_months_E2E_UTC:
  "map_sum id (map_option (map (\<lambda>r. (product r, date r)))) (predictSales 0 (Some m) salesE2E) =
     Inr (Some [(''Widget'', ''2024-03''), (''Widget'', ''2024-04''), (''Widget'', ''2024-05''),
                (''Widget'', ''2024-06''), (''Widget'', ''2024-07''), (''Widget'', ''2024-08''),
                (''Gadget'', ''2024-03''), (''Gadget'', ''2024-04''), (''Gadget'', ''2024-05''),
                (''Gadget'', ''2024-06''), (''Gadget'', ''2024-07''), (''Gadget'', ''2024-08'')])"
  by code_simp

text \<open>
  Past the year 9999 toISOString writes the year with a sign and six digits, and the
  first seven characters no longer hold the month. A date such as \<open>2024-13\<close> passes
  the parser's pattern, is an invalid Date, and makes toISOString throw.
\<close>

lemma predictSales_year_9999:
  "map_sum id (map_option (map date))
     (predictSales 0 (Some m)
        [\<lparr>date = ''9999-12-01'', product = ''Widget'', quantity = Fin 100\<rparr>]) =
     Inr (Some [''+010000'', ''+010000'', ''+010000'', ''+010000'', ''+010000'', ''+010000''])"
  by code_simp

lemma predictSales_invalid_month:
  "predictSales 0 (Some m)
     [\<lparr>date = ''2024-13-01'', product = ''Widget'', quantity = Fin 100\<rparr>] =
     Inl (RangeError ''Invalid time value'')"
  by code_simp

text \<open>
  C6 does not hold of the code for a product named \<^verbatim>\<open>__proto__\<close>: the assignment
  \<^verbatim>\<open>encoder[p] = i / products.length\<close> creates no property, and the value read back
  for the training row is not a number (None), where the claim has the code 0.
  For every other product the lemmas \<open>product_code_range\<close>, \<open>first_product_code\<close>
  and \<open>month_index_range\<close> above give the ranges.
\<close>

theorem proto_product_has_no_code:
  "parseText csvProto =
     Inr [\<lparr>date = ''2024-01-01'', product = ''__proto__'', quantity = Fin 5\<rparr>] \<and>
   map_sum id inputs
     (dataProcessing [\<lparr>date = ''2024-01-01'', product = ''__proto__'', quantity = Fin 5\<rparr>]) =
     Inr [(0, None)]"
proof
  show "parseText csvProto =
     Inr [\<lparr>date = ''2024-01-01'', product = ''__proto__'', quantity = Fin 5\<rparr>]"
    by (simp add: parseText_filter csvProto_def row_defs number_defs)
  show "map_sum id inputs
     (dataProcessing [\<lparr>date = ''2024-01-01'', product = ''__proto__'', quantity = Fin 5\<rparr>]) =
     Inr [(0, None)]"
    by code_simp
qed

section \<open>Properties of the rounding\<close>

lemma roundHalfEven_error: "\<bar>of_int (roundHalfEven y) - y\<bar> \<le> 1 / 2"
proof -
  have "of_int \<lfloor>y\<rfloor> \<le> y" "y < of_int \<lfloor>y\<rfloor> + 1"
    by linarith+
  then show ?thesis
    by (auto simp: roundHalfEven_def Let_def)
qed

lemma roundHalfEven_of_int: "roundHalfEven (of_int n) = n"
  by (simp add: roundHalfEven_def)

lemma roundHalfEven_le:
  assumes "y \<le> of_int n"
  shows "roundHalfEven y \<le> n"
proof (cases "y = of_int n")
  case True
  then show ?thesis by (simp add: roundHalfEven_of_int)
next
  case False
  with assms have "y < of_int n" by simp
  then have "\<lfloor>y\<rfloor> < n" by (simp add: floor_less_iff)
  then show ?thesis
    by (auto simp: roundHalfEven_def Let_def)
qed

lemma roundHalfEven_nonneg: "0 \<le> y \<Longrightarrow> 0 \<le> roundHalfEven y"
  by (auto simp: roundHalfEven_def Let_def)

lemma bitlen_mono: "a \<le> b \<Longrightarrow> bitlen a \<le> bitlen b"
  by (simp add: bitlen_def floorlog_mono)

lemma exponentOf_le_0:
  assumes "0 < x" and "x \<le> 1"
  shows "exponentOf x \<le> 0"
proof -
  obtain n d where q: "quotient_of x = (n, d)"
    by (cases "quotient_of x")
  then have d: "0 < d" and x: "x = of_int n / of_int d"
    by (simp_all add: quotient_of_denom_pos quotient_of_div)
  from assms(2) d have "n \<le> d"
    by (simp add: x divide_le_eq)
  then have "bitlen n - bitlen d \<le> 0"
    using bitlen_mono by fastforce
  then show ?thesis
    by (simp add: exponentOf_def q Let_def)
qed


lemma roundTo_pos:
  assumes "0 < x"
  shows "roundTo p x = of_int (roundHalfEven (x / 2 powi (exponentOf x - (p - 1)))) *
           2 powi (exponentOf x - (p - 1))"
  using assms by (simp add: roundTo_def Let_def)

lemma roundTo_error:
  assumes "0 < x" and "x \<le> 1"
  shows "\<bar>roundTo p x - x\<bar> \<le> 2 powi (- p)"
proof -
  let ?e = "exponentOf x - (p - 1)"
  let ?u = "(2::rat) powi ?e"
  have u: "0 < ?u" by simp
  have "?e \<le> 1 - p"
    using exponentOf_le_0 [OF assms] by simp
  then have "?u \<le> 2 powi (1 - p)"
    by (intro power_int_increasing) simp_all
  also have "(2::rat) powi (1 - p) = 2 * 2 powi (- p)"
    using power_int_add [of "2::rat" 1 "- p"] by simp
  finally have ub: "?u / 2 \<le> 2 powi (- p)" by simp
  have "roundTo p x - x = (of_int (roundHalfEven (x / ?u)) - x / ?u) * ?u"
    using u by (simp add: roundTo_pos [OF assms(1)] algebra_simps)
  then have "\<bar>roundTo p x - x\<bar> = \<bar>of_int (roundHalfEven (x / ?u)) - x / ?u\<bar> * ?u"
    using u by (simp add: abs_mult)
  also have "\<dots> \<le> 1 / 2 * ?u"
    using roundHalfEven_error [of "x / ?u"] u by (intro mult_right_mono) simp_all
  finally show ?thesis
    using ub by simp
qed

lemma roundTo_range:
  assumes "0 < x" and "x \<le> 1" and "1 \<le> p"
  shows "0 \<le> roundTo p x \<and> roundTo p x \<le> 1"
proof -
  let ?e = "exponentOf x - (p - 1)"
  let ?u = "(2::rat) powi ?e"
  have u: "0 < ?u" by simp
  have e: "0 \<le> - ?e"
    using exponentOf_le_0 [OF assms(1,2)] assms(3) by simp
  have inv: "1 / ?u = of_int (2 ^ nat (- ?e))"
    using e by (simp add: power_int_minus_divide [symmetric] power_int_nonneg_exp)
  have "x / ?u \<le> 1 / ?u"
    using assms(2) u by (simp add: divide_right_mono)
  then have "roundHalfEven (x / ?u) \<le> 2 ^ nat (- ?e)"
    unfolding inv by (rule roundHalfEven_le)
  then have "(of_int (roundHalfEven (x / ?u)) :: rat) \<le> of_int (2 ^ nat (- ?e))"
    by (simp only: of_int_le_iff)
  then have "of_int (roundHalfEven (x / ?u)) * ?u \<le> of_int (2 ^ nat (- ?e)) * ?u"
    using u by (intro mult_right_mono) simp_all
  also have "of_int (2 ^ nat (- ?e)) * ?u = 1"
    using inv u by (simp add: field_simps)
  finally have hi: "roundTo p x \<le> 1"
    by (simp add: roundTo_pos [OF assms(1)])
  have "0 \<le> x / ?u"
    using assms(1) u by simp
  then have "0 \<le> roundHalfEven (x / ?u)"
    by (rule roundHalfEven_nonneg)
  then have "0 \<le> roundTo p x"
    using u by (simp add: roundTo_pos [OF assms(1)])
  with hi show ?thesis by simp
qed

lemma exponentOf_1: "exponentOf 1 = 0"
proof -
  have "bitlen 1 = 1"
    by (subst compute_bitlen) simp
  then show ?thesis
    by (simp add: exponentOf_def)
qed

lemma roundTo_1:
  assumes "1 \<le> p"
  shows "roundTo p 1 = 1"
proof -
  let ?u = "(2::rat) powi (0 - (p - 1))"
  have u: "0 < ?u" by simp
  have inv: "1 / ?u = of_int (2 ^ nat (p - 1))"
    using assms by (simp add: power_int_minus_divide [symmetric] power_int_nonneg_exp)
  have "roundHalfEven (1 / ?u) = 2 ^ nat (p - 1)"
    unfolding inv by (rule roundHalfEven_of_int)
  then have "roundTo p 1 = of_int (2 ^ nat (p - 1)) * ?u"
    by (simp add: roundTo_def exponentOf_1 Let_def)
  also have "\<dots> = 1"
    using inv u by (simp add: field_simps)
  finally show ?thesis .
qed

lemma roundTo_strict_mono:
  assumes "0 < a" and "a \<le> 1" and "0 < b" and "b \<le> 1"
    and "2 * 2 powi (- p) < b - a"
  shows "roundTo p a < roundTo p b"
  using roundTo_error [OF assms(1,2), of p] roundTo_error [OF assms(3,4), of p] assms(5)
  by linarith

lemma float32_of_double_error:
  assumes "0 < x" and "x \<le> 1"
  shows "\<bar>toFloat32 (toDouble x) - x\<bar> \<le> 2 powi (- 24) + 2 powi (- 53)"
proof -
  let ?d = "toDouble x"
  have d: "\<bar>?d - x\<bar> \<le> 2 powi (- 53)"
    unfolding toDouble_def by (rule roundTo_error [OF assms])
  have r: "0 \<le> ?d \<and> ?d \<le> 1"
    unfolding toDouble_def by (rule roundTo_range [OF assms]) simp
  show ?thesis
  proof (cases "?d = 0")
    case True
    then have "toFloat32 ?d = ?d"
      by (simp add: toFloat32_def roundTo_def)
    with d show ?thesis by simp
  next
    case False
    with r have "0 < ?d" "?d \<le> 1" by simp_all
    then have "\<bar>toFloat32 ?d - ?d\<bar> \<le> 2 powi (- 24)"
      unfolding toFloat32_def by (rule roundTo_error)
    with d show ?thesis by linarith
  qed
qed

lemma less_from_errors:
  fixes a b fa fb e g :: rat
  assumes "\<bar>fa - a\<bar> \<le> e" and "\<bar>fb - b\<bar> \<le> e" and "2 * e < g" and "g \<le> b - a"
  shows "fa < fb"
  using assms by linarith

lemma distinct_months_le_length: "card (date ` set sd) \<le> length sd"
  by (metis card_image_le card_length le_trans List.finite_set)

text \<open>
  C8, as the code has it. With M the number of distinct months, the time index of the
  row at offset \<open>i\<close> (1 to 6) is the double nearest to \<open>(M + i) / (M + 6)\<close>, at most
  \<open>2^-53\<close> away from it. At offset 6 it is exactly 1, in the row and as float32 in the
  tensor. It grows strictly with the offset in the row (an array is shorter than
  \<open>2^32\<close>), and in the tensor as long as \<open>M + 6 \<le> 2^22\<close>.
\<close>

theorem predict_time_index:
  assumes "dataProcessing sd = Inr pr" and "1 \<le> i" and "i \<le> 6" and "length sd < 2 ^ 32"
  shows "fst (predictInput pr p i) =
           toDouble ((of_nat (card (date ` set sd)) + of_int i) /
                     (of_nat (card (date ` set sd)) + 6)) \<and>
         \<bar>fst (predictInput pr p i) -
            (of_nat (card (date ` set sd)) + of_int i) / (of_nat (card (date ` set sd)) + 6)\<bar>
           \<le> 1 / 2 ^ 53 \<and>
         fst (predictInput pr p 6) = 1 \<and>
         toFloat32 (fst (predictInput pr p 6)) = 1 \<and>
         (\<forall>j. i < j \<and> j \<le> 6 \<longrightarrow> fst (predictInput pr p i) < fst (predictInput pr p j)) \<and>
         (card (date ` set sd) + 6 \<le> 2 ^ 22 \<longrightarrow>
            (\<forall>j. i < j \<and> j \<le> 6 \<longrightarrow>
               toFloat32 (fst (predictInput pr p i)) < toFloat32 (fst (predictInput pr p j)))) \<and>
         predictedQuantity m pr p i =
           Math_max (Fin 0) (Math_round (timesNumber
             (m (toDouble ((of_nat (card (date ` set sd)) + of_int i) /
                           (of_nat (card (date ` set sd)) + 6)),
                 encoder pr p)) 1000))"
proof -
  let ?M = "card (date ` set sd)"
  let ?x = "\<lambda>k::int. (of_nat ?M + of_int k :: rat) / (of_nat ?M + 6)"
  from assms(1) have len: "length (dates pr) = ?M"
    by (simp add: dataProcessing_Inr(4) length_datesOf)
  have f: "fst (predictInput pr p k) = toDouble (?x k)" for k
    by (simp add: predictInput_def len)
  have pos: "(0::rat) < of_nat ?M + 6"
    by (simp add: add_nonneg_pos)
  have range: "0 < ?x k \<and> ?x k \<le> 1" if "1 \<le> k" "k \<le> 6" for k
  proof -
    from that have k: "(0::rat) < of_int k" "(of_int k :: rat) \<le> 6"
      by simp_all
    have n: "(0::rat) \<le> of_nat ?M"
      by simp
    from k n have a: "(0::rat) < of_nat ?M + of_int k"
      by linarith
    from k have b: "(of_nat ?M + of_int k :: rat) \<le> of_nat ?M + 6"
      by linarith
    from a pos have "0 < ?x k"
      by (rule divide_pos_pos)
    moreover from b pos have "?x k \<le> 1"
      by (simp only: divide_le_eq_1_pos)
    ultimately show ?thesis
      by (rule conjI)
  qed
  have gap: "1 / (of_nat ?M + 6) \<le> ?x j - ?x i" if "i < j" for j
  proof -
    from that have "i + 1 \<le> j"
      by simp
    then have "(of_int (i + 1) :: rat) \<le> of_int j"
      by (simp only: of_int_le_iff)
    then have "(1::rat) \<le> of_int j - of_int i"
      by simp
    then have "(1::rat) / (of_nat ?M + 6) \<le> (of_int j - of_int i) / (of_nat ?M + 6)"
      using pos by (simp add: divide_right_mono)
    also have "\<dots> = ?x j - ?x i"
      by (simp add: diff_divide_distrib add_divide_distrib)
    finally show ?thesis .
  qed
  have Mle: "?M < 2 ^ 32"
    using distinct_months_le_length [of sd] assms(4) by simp
  have err: "\<bar>fst (predictInput pr p i) - ?x i\<bar> \<le> 1 / 2 ^ 53"
  proof -
    have "\<bar>toDouble (?x i) - ?x i\<bar> \<le> 2 powi (- 53)"
      unfolding toDouble_def using range [OF assms(2,3)] by (intro roundTo_error) simp_all
    then show ?thesis
      by (simp add: f power_int_minus_divide)
  qed
  have six: "fst (predictInput pr p 6) = 1"
    using pos by (simp add: f toDouble_def roundTo_1)
  have six32: "toFloat32 (fst (predictInput pr p 6)) = 1"
    by (simp add: six toFloat32_def roundTo_1)
  have small: "(1::rat) / 2 ^ 38 \<le> 1 / (of_nat ?M + 6)"
  proof -
    from Mle have "?M + 6 \<le> 2 ^ 38" by simp
    then have "(of_nat (?M + 6) :: rat) \<le> of_nat (2 ^ 38)"
      by (simp only: of_nat_le_iff)
    then have "(of_nat ?M + 6 :: rat) \<le> 2 ^ 38" by simp
    then show ?thesis
      using pos by (simp add: frac_le)
  qed
  have mono: "fst (predictInput pr p i) < fst (predictInput pr p j)" if "i < j" "j \<le> 6" for j
  proof -
    have "1 \<le> j" using that assms(2) by simp
    have "(2::rat) * 2 powi (- 53) < 1 / 2 ^ 38"
      by (simp add: power_int_minus_divide)
    also have "\<dots> \<le> ?x j - ?x i"
      using small gap [OF that(1)] by (rule order_trans)
    finally have "roundTo 53 (?x i) < roundTo 53 (?x j)"
      using range [OF assms(2,3)] range [OF \<open>1 \<le> j\<close> that(2)]
      by (intro roundTo_strict_mono) simp_all
    then show ?thesis
      by (simp add: f toDouble_def)
  qed
  have mono32: "toFloat32 (fst (predictInput pr p i)) < toFloat32 (fst (predictInput pr p j))"
    if "?M + 6 \<le> 2 ^ 22" "i < j" "j \<le> 6" for j
  proof -
    have "1 \<le> j" using that assms(2) by simp
    from that(1) have "(of_nat (?M + 6) :: rat) \<le> of_nat (2 ^ 22)"
      by (simp only: of_nat_le_iff)
    then have "(of_nat ?M + 6 :: rat) \<le> 2 ^ 22" by simp
    then have "(1::rat) / 2 ^ 22 \<le> 1 / (of_nat ?M + 6)"
      using pos by (simp add: frac_le)
    then have g: "(1::rat) / 2 ^ 22 \<le> ?x j - ?x i"
      using gap [OF that(2)] by (rule order_trans)
    have c: "(2::rat) * (2 powi (- 24) + 2 powi (- 53)) < 1 / 2 ^ 22"
      by (simp add: power_int_minus_divide)
    from float32_of_double_error [of "?x i"] float32_of_double_error [of "?x j"]
      range [OF assms(2,3)] range [OF \<open>1 \<le> j\<close> that(3)]
    have "\<bar>toFloat32 (toDouble (?x i)) - ?x i\<bar> \<le> 2 powi (- 24) + 2 powi (- 53)"
      "\<bar>toFloat32 (toDouble (?x j)) - ?x j\<bar> \<le> 2 powi (- 24) + 2 powi (- 53)"
      by simp_all
    then have "toFloat32 (toDouble (?x i)) < toFloat32 (toDouble (?x j))"
      using c g by (rule less_from_errors)
    then show ?thesis
      by (simp add: f)
  qed
  have q: "predictedQuantity m pr p i =
           Math_max (Fin 0) (Math_round (timesNumber (m (toDouble (?x i), encoder pr p)) 1000))"
    using f [of i] by (simp add: predictedQuantity_def predictInput_def)
  from f [of i] err six six32 mono mono32 q show ?thesis
    by blast
qed

lemma toDouble_two_sevenths: "toDouble (2 / 7) = 2573485501354569 / 9007199254740992"
  by code_simp

lemma toDouble_three_sevenths: "toDouble (3 / 7) = 7720456504063707 / 18014398509481984"
  by code_simp

lemma toFloat32_two_sevenths: "toFloat32 (2573485501354569 / 9007199254740992) = 9586981 / 33554432"
  by code_simp

lemma months_salesTwo: "card (date ` set salesTwo) = 1"
proof -
  have "length (datesOf salesTwo) = 1"
    by code_simp
  then show ?thesis
    by (simp add: length_datesOf)
qed

text \<open>
  C8 as stated fails: with one month the index at offset 1 is a double, and no double
  equals \<open>2 / 7\<close>.
\<close>

theorem time_index_is_rounded:
  "map_sum id (\<lambda>pr. fst (predictInput pr ''Widget'' 1)) (dataProcessing salesTwo) =
     Inr (2573485501354569 / 9007199254740992) \<and>
   card (date ` set salesTwo) = 1 \<and>
   (2573485501354569 / 9007199254740992 :: rat) \<noteq> (1 + 1) / (1 + 6)"
proof (intro conjI)
  show "map_sum id (\<lambda>pr. fst (predictInput pr ''Widget'' 1)) (dataProcessing salesTwo) =
     Inr (2573485501354569 / 9007199254740992)"
    by code_simp
  show "card (date ` set salesTwo) = 1"
    by (rule months_salesTwo)
  show "(2573485501354569 / 9007199254740992 :: rat) \<noteq> (1 + 1) / (1 + 6)"
    by simp
qed

theorem predict_time_index_witness:
  "\<exists>pr. dataProcessing salesTwo = Inr pr \<and> length salesTwo < 2 ^ 32 \<and>
     fst (predictInput pr ''Widget'' 1) = 2573485501354569 / 9007199254740992 \<and>
     \<bar>fst (predictInput pr ''Widget'' 1) - 2 / 7\<bar> \<le> 1 / 2 ^ 53 \<and>
     fst (predictInput pr ''Widget'' 6) = 1 \<and>
     fst (predictInput pr ''Widget'' 1) < fst (predictInput pr ''Widget'' 2) \<and>
     toFloat32 (fst (predictInput pr ''Widget'' 1)) < toFloat32 (fst (predictInput pr ''Widget'' 2))"
proof -
  have "salesTwo \<noteq> []"
    by (simp add: salesTwo_def)
  then obtain pr where pr: "dataProcessing salesTwo = Inr pr"
    using dataProcessing_nonempty by blast
  have l: "length salesTwo < 2 ^ 32"
    by (simp add: salesTwo_def)
  have o: "(1::int) \<le> 1" "(1::int) \<le> 6" "(1::int) < 2 \<and> (2::int) \<le> 6"
    by simp_all
  have s: "card (date ` set salesTwo) + 6 \<le> 2 ^ 22"
    by (simp add: months_salesTwo)
  note T = predict_time_index [OF pr o(1,2) l, of "''Widget''" slopeModel,
      unfolded months_salesTwo]
  have x: "(of_nat 1 + of_int 1 :: rat) / (of_nat 1 + 6) = 2 / 7"
    by simp
  have a: "fst (predictInput pr ''Widget'' 1) = 2573485501354569 / 9007199254740992"
    using T [THEN conjunct1] by (simp only: x toDouble_two_sevenths)
  have b: "\<bar>fst (predictInput pr ''Widget'' 1) - 2 / 7\<bar> \<le> 1 / 2 ^ 53"
    using T [THEN conjunct2, THEN conjunct1] by (simp only: x)
  have c: "fst (predictInput pr ''Widget'' 6) = 1"
    by (rule T [THEN conjunct2, THEN conjunct2, THEN conjunct1])
  have d: "fst (predictInput pr ''Widget'' 1) < fst (predictInput pr ''Widget'' 2)"
    using T [THEN conjunct2, THEN conjunct2, THEN conjunct2, THEN conjunct2, THEN conjunct1,
        rule_format, of 2] o(3)
    by blast
  have e: "toFloat32 (fst (predictInput pr ''Widget'' 1)) < toFloat32 (fst (predictInput pr ''Widget'' 2))"
    using T [THEN conjunct2, THEN conjunct2, THEN conjunct2, THEN conjunct2, THEN conjunct2,
        THEN conjunct1, rule_format, of 2] o(3) s [unfolded months_salesTwo]
    by blast
  from pr l a b c d e show ?thesis
    by blast
qed

section \<open>The first line and the rows after it\<close>

lemma split_append: "sep \<notin> set h \<Longrightarrow> split sep (h @ sep # b) = h # split sep b"
  by (induction h) auto

lemma dataLines_header: "CHR 0x0A \<notin> set header \<Longrightarrow> dataLines (header @ CHR 0x0A # body) = split CHR 0x0A body"
  by (simp add: dataLines_def split_append)

lemma dataLines_header_only: "CHR 0x0A \<notin> set text \<Longrightarrow> dataLines text = []"
  by (simp add: dataLines_def split_no_sep)

lemma parseText_split:
  "parseText text =
     (if filter wellFormedRow (drop 1 (split CHR 0x0A text)) = []
      then Inl (Error ''No valid data could be parsed from the file'')
      else Inr (map rowObservation (filter wellFormedRow (drop 1 (split CHR 0x0A text)))))"
  by (simp only: parseText_filter dataLines_def)

text \<open>
  C2. The text is split at the line feeds and its first line is skipped, whatever it
  holds. Whenever at least one of the remaining lines is well-formed, the parser returns
  exactly the well-formed ones among them, in their order in the text, each as its
  observation (date with \<open>-01\<close> appended), however many malformed rows stand around
  them.
\<close>

theorem parseText_well_formed_rows:
  "((\<exists>line \<in> set (drop 1 (split CHR 0x0A text)). wellFormedRow line) \<longrightarrow>
      parseText text =
        Inr (map rowObservation (filter wellFormedRow (drop 1 (split CHR 0x0A text))))) \<and>
   (CHR 0x0A \<notin> set header \<longrightarrow> (\<exists>line \<in> set (split CHR 0x0A body). wellFormedRow line) \<longrightarrow>
      parseText (header @ CHR 0x0A # body) =
        Inr (map rowObservation (filter wellFormedRow (split CHR 0x0A body))))"
proof (intro conjI impI)
  assume "\<exists>line \<in> set (drop 1 (split CHR 0x0A text)). wellFormedRow line"
  then have "filter wellFormedRow (drop 1 (split CHR 0x0A text)) \<noteq> []"
    by (simp add: filter_empty_conv)
  then show "parseText text =
        Inr (map rowObservation (filter wellFormedRow (drop 1 (split CHR 0x0A text))))"
    by (simp add: parseText_split)
next
  assume h: "CHR 0x0A \<notin> set header"
    and "\<exists>line \<in> set (split CHR 0x0A body). wellFormedRow line"
  then have "filter wellFormedRow (split CHR 0x0A body) \<noteq> []"
    by (simp add: filter_empty_conv)
  then show "parseText (header @ CHR 0x0A # body) =
        Inr (map rowObservation (filter wellFormedRow (split CHR 0x0A body)))"
    using h by (simp add: parseText_filter dataLines_header)
qed

text \<open>
  C3. The parser throws its error exactly when no line after the first survives the
  filtering: always for a text with only a header line, and for a header followed by
  lines exactly when all of them are malformed. It returns rows exactly when one
  survives, and the status written on success is the same fixed message whatever was
  dropped.
\<close>

theorem parseText_error_iff_nothing_kept:
  "(parseText text = Inl (Error ''No valid data could be parsed from the file''))
     = (filter wellFormedRow (drop 1 (split CHR 0x0A text)) = []) \<and>
   (\<exists>rows. parseText text = Inr rows)
     = (filter wellFormedRow (drop 1 (split CHR 0x0A text)) \<noteq> []) \<and>
   (CHR 0x0A \<notin> set text \<longrightarrow>
      parseText text = Inl (Error ''No valid data could be parsed from the file'')) \<and>
   (CHR 0x0A \<notin> set header \<longrightarrow>
      (parseText (header @ CHR 0x0A # body) =
         Inl (Error ''No valid data could be parsed from the file''))
       = (filter wellFormedRow (split CHR 0x0A body) = [])) \<and>
   targetFileUpload text st =
     (if filter wellFormedRow (drop 1 (split CHR 0x0A text)) = []
      then st\<lparr>status := ''Error parsing file: No valid data could be parsed from the file''\<rparr>
      else st\<lparr>salesData :=
                map rowObservation (filter wellFormedRow (drop 1 (split CHR 0x0A text))),
              status := ''Data loaded successfully! You can now train the model.''\<rparr>)"
proof (intro conjI impI)
  show "(parseText text = Inl (Error ''No valid data could be parsed from the file''))
     = (filter wellFormedRow (drop 1 (split CHR 0x0A text)) = [])"
    by (simp add: parseText_split)
  show "(\<exists>rows. parseText text = Inr rows)
     = (filter wellFormedRow (drop 1 (split CHR 0x0A text)) \<noteq> [])"
    by (simp add: parseText_split)
  show "targetFileUpload text st =
     (if filter wellFormedRow (drop 1 (split CHR 0x0A text)) = []
      then st\<lparr>status := ''Error parsing file: No valid data could be parsed from the file''\<rparr>
      else st\<lparr>salesData :=
                map rowObservation (filter wellFormedRow (drop 1 (split CHR 0x0A text))),
              status := ''Data loaded successfully! You can now train the model.''\<rparr>)"
    by (simp add: parseText_split targetFileUpload_def)
next
  assume "CHR 0x0A \<notin> set text"
  then show "parseText text = Inl (Error ''No valid data could be parsed from the file'')"
    by (simp add: parseText_filter dataLines_header_only)
next
  assume "CHR 0x0A \<notin> set header"
  then show "(parseText (header @ CHR 0x0A # body) =
         Inl (Error ''No valid data could be parsed from the file''))
       = (filter wellFormedRow (split CHR 0x0A body) = [])"
    by (simp add: parseText_filter dataLines_header)
qed


lemma map_eq_Cons_nonempty: "map f xs = y # ys \<Longrightarrow> xs \<noteq> []"
  by auto

lemma filter_nonempty_ex: "filter P xs \<noteq> [] \<Longrightarrow> \<exists>x \<in> set xs. P x"
  by (simp add: filter_empty_conv)

lemma first_line_well_formed: "wellFormedRow ''2024-01,First,1''"
  by (simp add: row_defs number_defs)

lemma csvRowFirst_body_rows:
  "map rowObservation
     (filter wellFormedRow (split CHR 0x0A (''2024-02,Widget,100'' @ [CHR 0x0A] @ ''2024-02,42,10''))) =
   [\<lparr>date = ''2024-02-01'', product = ''Widget'', quantity = Fin 100\<rparr>]"
  by (simp add: row_defs number_defs)

theorem parseText_well_formed_rows_witness:
  "(\<exists>line \<in> set (drop 1 (split CHR 0x0A csvMixed)). wellFormedRow line) \<and>
   parseText csvMixed =
     Inr [\<lparr>date = ''2024-01-01'', product = ''Widget'', quantity = Fin 100\<rparr>,
          \<lparr>date = ''2024-02-01'', product = ''Gadget'', quantity = Fin 75\<rparr>] \<and>
   wellFormedRow ''2024-01,First,1'' \<and>
   CHR 0x0A \<notin> set ''2024-01,First,1'' \<and>
   (\<exists>line \<in> set (split CHR 0x0A (''2024-02,Widget,100'' @ [CHR 0x0A] @ ''2024-02,42,10'')).
      wellFormedRow line) \<and>
   parseText csvRowFirst =
     Inr [\<lparr>date = ''2024-02-01'', product = ''Widget'', quantity = Fin 100\<rparr>]"
proof -
  let ?body = "''2024-02,Widget,100'' @ [CHR 0x0A] @ ''2024-02,42,10''"
  note rows = csvMixed_rows [unfolded dataLines_def]
  have "filter wellFormedRow (drop 1 (split CHR 0x0A csvMixed)) \<noteq> []"
    using rows by (rule map_eq_Cons_nonempty)
  then have h: "\<exists>line \<in> set (drop 1 (split CHR 0x0A csvMixed)). wellFormedRow line"
    by (rule filter_nonempty_ex)
  have n: "CHR 0x0A \<notin> set ''2024-01,First,1''"
    by simp
  have "filter wellFormedRow (split CHR 0x0A ?body) \<noteq> []"
    using csvRowFirst_body_rows by (rule map_eq_Cons_nonempty)
  then have b: "\<exists>line \<in> set (split CHR 0x0A ?body). wellFormedRow line"
    by (rule filter_nonempty_ex)
  have c: "csvRowFirst = ''2024-01,First,1'' @ CHR 0x0A # ?body"
    by (simp add: csvRowFirst_def)
  from parseText_well_formed_rows [of csvMixed "''2024-01,First,1''" ?body]
    h n b rows csvRowFirst_body_rows first_line_well_formed
  show ?thesis
    by (simp only: c) simp
qed

theorem parseText_error_iff_nothing_kept_witness:
  "wellFormedRow ''2024-01,First,1'' \<and>
   parseText ''2024-01,First,1'' =
     Inl (Error ''No valid data could be parsed from the file'') \<and>
   parseText csvMalformed = Inl (Error ''No valid data could be parsed from the file'') \<and>
   (\<exists>rows. parseText csvRowFirst = Inr rows) \<and>
   status (targetFileUpload csvMixed initialState) =
     ''Data loaded successfully! You can now train the model.''"
proof -
  let ?body = "''2024-02,Widget,100'' @ [CHR 0x0A] @ ''2024-02,42,10''"
  have a: "filter wellFormedRow (drop 1 (split CHR 0x0A csvMalformed)) = []"
    using csvMalformed_rows by (simp only: dataLines_def)
  have n: "CHR 0x0A \<notin> set ''2024-01,First,1''"
    by simp
  have b: "filter wellFormedRow (split CHR 0x0A ?body) \<noteq> []"
    using csvRowFirst_body_rows by (rule map_eq_Cons_nonempty)
  have c: "csvRowFirst = ''2024-01,First,1'' @ CHR 0x0A # ?body"
    by (simp add: csvRowFirst_def)
  have d: "filter wellFormedRow (drop 1 (split CHR 0x0A csvMixed)) \<noteq> []"
    using csvMixed_rows [unfolded dataLines_def] by (rule map_eq_Cons_nonempty)
  have e: "\<exists>rows. parseText csvRowFirst = Inr rows"
    using parseText_error_iff_nothing_kept [of csvRowFirst "''2024-01,First,1''" ?body initialState]
      n b
    by (simp only: c [symmetric]) metis
  from parseText_error_iff_nothing_kept [of csvMalformed "''2024-01,First,1''" ?body initialState]
    parseText_error_iff_nothing_kept [of "''2024-01,First,1''" "''2024-01,First,1''" ?body initialState]
    parseText_error_iff_nothing_kept [of csvMixed "''2024-01,First,1''" ?body initialState]
    a n d e first_line_well_formed
  show ?thesis
    by simp
qed

section \<open>The predicted quantities\<close>

lemma predictSales_pairs:
  assumes "predictSales tza (Some m) sd = Inr (Some out)"
  shows "\<exists>pr. dataProcessing sd = Inr pr \<and>
     map (\<lambda>row. (product row, quantity row)) out =
       concat (map (\<lambda>p. map (\<lambda>j. (p, predictedQuantity m pr p j)) [1..6]) (products pr))"
proof -
  from predictSales_Some [OF assms] obtain pr where pr: "dataProcessing sd = Inr pr"
    and out: "out = concat (map (\<lambda>p. map (\<lambda>j. \<lparr>date = take 7 (projr (nextDateISO tza (lastDateOf (dates pr)) j)),
                                         product = p,
                                         quantity = predictedQuantity m pr p j\<rparr>) [1..6])
                       (products pr))"
    by blast
  have "map (\<lambda>row. (product row, quantity row)) out =
       concat (map (\<lambda>p. map (\<lambda>j. (p, predictedQuantity m pr p j)) [1..6]) (products pr))"
    unfolding out by (simp add: map_concat o_def)
  with pr show ?thesis
    by blast
qed

text \<open>
  C7, as the code has it. The predictions are, product by product and offset by offset,
  \<open>Math.max(0, Math.round(raw * 1000))\<close> of the number the network returns for that
  product and offset; each one for which that number is neither NaN nor \<open>+Infinity\<close>
  is a non-negative integer.
\<close>

theorem predicted_quantity_nonneg_integer:
  assumes "predictSales tza (Some m) sd = Inr (Some out)"
  shows "\<exists>pr. dataProcessing sd = Inr pr \<and>
     map (\<lambda>row. (product row, quantity row)) out =
       concat (map (\<lambda>p. map (\<lambda>j. (p, Math_max (Fin 0) (Math_round
                 (timesNumber (m (predictInput pr p j)) 1000)))) [1..6]) (products pr)) \<and>
     (\<forall>row \<in> set out. \<exists>p j. p \<in> set (products pr) \<and> 1 \<le> j \<and> j \<le> 6 \<and>
        product row = p \<and>
        quantity row =
          Math_max (Fin 0) (Math_round (timesNumber (m (predictInput pr p j)) 1000)) \<and>
        (m (predictInput pr p j) \<noteq> NaN \<and> m (predictInput pr p j) \<noteq> PosInfinity \<longrightarrow>
           isNonNegativeInteger (quantity row)))"
proof -
  from predictSales_pairs [OF assms] obtain pr where pr: "dataProcessing sd = Inr pr"
    and pairs: "map (\<lambda>row. (product row, quantity row)) out =
       concat (map (\<lambda>p. map (\<lambda>j. (p, predictedQuantity m pr p j)) [1..6]) (products pr))"
    by blast
  have rows: "\<exists>p j. p \<in> set (products pr) \<and> 1 \<le> j \<and> j \<le> 6 \<and> product row = p \<and>
        quantity row =
          Math_max (Fin 0) (Math_round (timesNumber (m (predictInput pr p j)) 1000)) \<and>
        (m (predictInput pr p j) \<noteq> NaN \<and> m (predictInput pr p j) \<noteq> PosInfinity \<longrightarrow>
           isNonNegativeInteger (quantity row))" if "row \<in> set out" for row
  proof -
    from predictSales_row [OF assms that] obtain pr' p j
      where r: "dataProcessing sd = Inr pr'" "p \<in> set (products pr')" "1 \<le> j" "j \<le> 6"
        "product row = p" "quantity row = predictedQuantity m pr' p j"
      by blast
    from r(1) pr have e: "pr' = pr" by simp
    have "isNonNegativeInteger (quantity row)"
      if "m (predictInput pr p j) \<noteq> NaN \<and> m (predictInput pr p j) \<noteq> PosInfinity"
      using that r(6) e by (simp add: predictedQuantity_integer)
    with r e show ?thesis
      by (auto simp: predictedQuantity_def)
  qed
  from pr pairs rows show ?thesis
    by (auto simp: predictedQuantity_def)
qed

lemma predictSales_slopeModel:
  "predictSales 0 (Some slopeModel) salesE2E = Inr (Some predictionsE2E)"
  by code_simp

theorem predicted_quantity_nonneg_integer_witness:
  "predictSales 0 (Some slopeModel) salesE2E = Inr (Some predictionsE2E) \<and>
   (\<exists>pr. dataProcessing salesE2E = Inr pr \<and>
      map (\<lambda>row. (product row, quantity row)) predictionsE2E =
        concat (map (\<lambda>p. map (\<lambda>j. (p, Math_max (Fin 0) (Math_round
                  (timesNumber (slopeModel (predictInput pr p j)) 1000)))) [1..6])
                    (products pr))) \<and>
   \<lparr>date = ''2024-07'', product = ''Gadget'', quantity = Fin 125\<rparr> \<in> set predictionsE2E \<and>
   isNonNegativeInteger
     (quantity \<lparr>date = ''2024-07'', product = ''Gadget'', quantity = Fin 125\<rparr>)"
proof -
  let ?row = "\<lparr>date = ''2024-07'', product = ''Gadget'', quantity = Fin 125\<rparr>"
  have r: "?row \<in> set predictionsE2E"
    by (simp add: predictionsE2E_def)
  from predicted_quantity_nonneg_integer [OF predictSales_slopeModel] obtain pr
    where pr: "dataProcessing salesE2E = Inr pr"
      and pairs: "map (\<lambda>row. (product row, quantity row)) predictionsE2E =
        concat (map (\<lambda>p. map (\<lambda>j. (p, Math_max (Fin 0) (Math_round
                  (timesNumber (slopeModel (predictInput pr p j)) 1000)))) [1..6])
                    (products pr))"
      and rows: "\<forall>row \<in> set predictionsE2E. \<exists>p j. p \<in> set (products pr) \<and> 1 \<le> j \<and> j \<le> 6 \<and>
        product row = p \<and>
        quantity row =
          Math_max (Fin 0) (Math_round (timesNumber (slopeModel (predictInput pr p j)) 1000)) \<and>
        (slopeModel (predictInput pr p j) \<noteq> NaN \<and>
         slopeModel (predictInput pr p j) \<noteq> PosInfinity \<longrightarrow>
           isNonNegativeInteger (quantity row))"
    by blast
  from rows r obtain p j
    where "slopeModel (predictInput pr p j) \<noteq> NaN \<and>
         slopeModel (predictInput pr p j) \<noteq> PosInfinity \<longrightarrow>
           isNonNegativeInteger (quantity ?row)"
    by blast
  moreover have "slopeModel (predictInput pr p j) \<noteq> NaN"
    "slopeModel (predictInput pr p j) \<noteq> PosInfinity"
    by (simp_all add: slopeModel_def)
  ultimately have "isNonNegativeInteger (quantity ?row)"
    by blast
  with predictSales_slopeModel pr pairs r show ?thesis
    by blast
qed

text \<open>
  C7 as stated fails: a network that returns NaN gives NaN as every predicted quantity,
  since \<open>Math.max(0, NaN)\<close> is NaN.
\<close>

theorem nan_prediction:
  "predictSales 0 (Some nanModel) salesE2E =
   Inr (Some [\<lparr>date = ''2024-03'', product = ''Widget'', quantity = NaN\<rparr>,
              \<lparr>date = ''2024-04'', product = ''Widget'', quantity = NaN\<rparr>,
              \<lparr>date = ''2024-05'', product = ''Widget'', quantity = NaN\<rparr>,
              \<lparr>date = ''2024-06'', product = ''Widget'', quantity = NaN\<rparr>,
              \<lparr>date = ''2024-07'', product = ''Widget'', quantity = NaN\<rparr>,
              \<lparr>date = ''2024-08'', product = ''Widget'', quantity = NaN\<rparr>,
              \<lparr>date = ''2024-03'', product = ''Gadget'', quantity = NaN\<rparr>,
              \<lparr>date = ''2024-04'', product = ''Gadget'', quantity = NaN\<rparr>,
              \<lparr>date = ''2024-05'', product = ''Gadget'', quantity = NaN\<rparr>,
              \<lparr>date = ''2024-06'', product = ''Gadget'', quantity = NaN\<rparr>,
              \<lparr>date = ''2024-07'', product = ''Gadget'', quantity = NaN\<rparr>,
              \<lparr>date = ''2024-08'', product = ''Gadget'', quantity = NaN\<rparr>]) \<and>
   \<not> isNonNegativeInteger NaN"
  by code_simp

text \<open>West of UTC the months of two products observed in 2024-12 are shifted alike.\<close>

lemma predictSales_months_west_two_products:
  "map_sum id (map_option (map (\<lambda>r. (product r, date r))))
     (predictSales (- 18000000) (Some m) salesTwo) =
     Inr (Some [(''Widget'', ''2024-12''), (''Widget'', ''2025-01''), (''Widget'', ''2025-03''),
                (''Widget'', ''2025-03''), (''Widget'', ''2025-05''), (''Widget'', ''2025-05''),
                (''Gadget'', ''2024-12''), (''Gadget'', ''2025-01''), (''Gadget'', ''2025-03''),
                (''Gadget'', ''2025-03''), (''Gadget'', ''2025-05''), (''Gadget'', ''2025-05'')])"
  by code_simp

end
